theory Spec2Isabelle
  imports Main "HOL-Library.Sublist"
begin

section \<open>Entity model (freeipa_idpsync.py, lines 16-39)\<close>

text \<open>
  The two dataclasses of the script. A Python \<open>str\<close> is a \<open>string\<close>, an
  \<open>Optional[str]\<close> a \<open>string option\<close>. The field \<open>name\<close> exists in both
  classes, so it is always written qualified: \<open>User.name\<close>, \<open>Group.name\<close>.
\<close>

record User =
  username :: string
  name :: string
  fname :: string
  lname :: string
  shell :: "string option"
  uid :: "string option"
  active :: bool
  email :: "string option"
  auth_type :: string
  idp_name :: string
  idp_username :: string

text \<open>
  \<open>Group.members\<close> is a \<open>Dict[str, None]\<close>: only its keys carry information. It is
  modelled by the list of its keys in insertion order (the order in which Python
  iterates over the dictionary).
\<close>

record Group =
  name :: string
  description :: "string option"
  members :: "string list"

section \<open>Python dictionaries\<close>

text \<open>
  A \<open>dict\<close> is an association list in insertion order; a dictionary built by Python
  has pairwise distinct keys. \<open>k in d\<close> is \<open>has_key\<close>, \<open>d.get(k)\<close> is \<open>dict_get\<close>,
  \<open>d.values()\<close> is \<open>dict_values\<close>, \<open>d[k] = v\<close> is \<open>dict_set\<close> (an existing key keeps
  its position, a new key goes last).
\<close>

type_synonym ('k, 'v) dict = "('k \<times> 'v) list"

definition dict_keys :: "('k, 'v) dict \<Rightarrow> 'k list" where
  "dict_keys d = map fst d"

definition dict_values :: "('k, 'v) dict \<Rightarrow> 'v list" where
  "dict_values d = map snd d"

definition has_key :: "'k \<Rightarrow> ('k, 'v) dict \<Rightarrow> bool" where
  "has_key k d = (k \<in> set (dict_keys d))"

definition dict_get :: "('k, 'v) dict \<Rightarrow> 'k \<Rightarrow> 'v option" where
  "dict_get d k = map_of d k"

fun dict_set :: "('k, 'v) dict \<Rightarrow> 'k \<Rightarrow> 'v \<Rightarrow> ('k, 'v) dict" where
  "dict_set [] k v = [(k, v)]"
| "dict_set ((k', v') # d) k v =
     (if k' = k then (k, v) # d else (k', v') # dict_set d k v)"

text \<open>
  \<open>members[member] = None\<close> on the key list of a \<open>Dict[str, None]\<close>, and the
  comparison \<open>a != b\<close> of two such dictionaries: dictionaries are equal when they
  have the same keys (all values are \<open>None\<close>), whatever the insertion order.
\<close>

definition members_set :: "string list \<Rightarrow> string \<Rightarrow> string list" where
  "members_set ms m = (if m \<in> set ms then ms else ms @ [m])"

definition members_differ :: "string list \<Rightarrow> string list \<Rightarrow> bool" where
  "members_differ a b = (set a \<noteq> set b)"

section \<open>Diff engine (lines 568-694)\<close>

definition users_not_in :: "(string, User) dict \<Rightarrow> (string, User) dict \<Rightarrow> User list" where
  "users_not_in list1 list2 =
     filter (\<lambda>user. \<not> has_key (username user) list2) (dict_values list1)"

definition groups_not_in :: "(string, Group) dict \<Rightarrow> (string, Group) dict \<Rightarrow> Group list" where
  "groups_not_in list1 list2 =
     filter (\<lambda>grp. \<not> has_key (Group.name grp) list2) (dict_values list1)"

definition user_match :: "User \<Rightarrow> User \<Rightarrow> bool" where
  "user_match idp_user freeipa_user =
     (if fname idp_user \<noteq> fname freeipa_user then False
      else if lname idp_user \<noteq> lname freeipa_user then False
      else if User.name idp_user \<noteq> User.name freeipa_user then False
      else if email idp_user \<noteq> None \<and> email idp_user \<noteq> email freeipa_user then False
      else if active idp_user \<noteq> active freeipa_user then False
      else if auth_type idp_user \<noteq> auth_type freeipa_user then False
      else if idp_name idp_user \<noteq> idp_name freeipa_user then False
      else if idp_username idp_user \<noteq> idp_username freeipa_user then False
      else if uid idp_user \<noteq> None \<and> uid idp_user \<noteq> uid freeipa_user then False
      else if shell idp_user \<noteq> None \<and> shell idp_user \<noteq> shell freeipa_user then False
      else True)"

text \<open>The loop of \<open>modified_users\<close>; \<open>users\<close> is the list built so far.\<close>

fun modified_users_loop :: "User list \<Rightarrow> (string, User) dict \<Rightarrow> User list \<Rightarrow> User list" where
  "modified_users_loop [] freeipa_users users = users"
| "modified_users_loop (idp_user # rest) freeipa_users users =
     (case dict_get freeipa_users (username idp_user) of
        None \<Rightarrow> modified_users_loop rest freeipa_users users
      | Some freeipa_user \<Rightarrow>
          if user_match idp_user freeipa_user
          then modified_users_loop rest freeipa_users users
          else modified_users_loop rest freeipa_users (users @ [idp_user]))"

definition modified_users :: "(string, User) dict \<Rightarrow> (string, User) dict \<Rightarrow> User list" where
  "modified_users idp_users freeipa_users =
     modified_users_loop (dict_values idp_users) freeipa_users []"

definition group_match :: "Group \<Rightarrow> Group \<Rightarrow> bool" where
  "group_match idp_group freeipa_group =
     (if description idp_group \<noteq> description freeipa_group then False
      else if members_differ (members idp_group) (members freeipa_group) then False
      else True)"

fun modified_groups_loop ::
  "Group list \<Rightarrow> (string, Group) dict \<Rightarrow> Group list \<Rightarrow> Group list" where
  "modified_groups_loop [] freeipa_groups groups = groups"
| "modified_groups_loop (idp_group # rest) freeipa_groups groups =
     (case dict_get freeipa_groups (Group.name idp_group) of
        None \<Rightarrow> modified_groups_loop rest freeipa_groups groups
      | Some freeipa_group \<Rightarrow>
          if group_match idp_group freeipa_group
          then modified_groups_loop rest freeipa_groups groups
          else modified_groups_loop rest freeipa_groups (groups @ [idp_group]))"

definition modified_groups :: "(string, Group) dict \<Rightarrow> (string, Group) dict \<Rightarrow> Group list" where
  "modified_groups idp_groups freeipa_groups =
     modified_groups_loop (dict_values idp_groups) freeipa_groups []"

text \<open>
  The shape of a snapshot mapping as both loaders build it (\<open>users[user.username] = user\<close>,
  \<open>groups[group.name] = group\<close>): the keys are pairwise distinct and every value is
  stored under its own key.
\<close>

definition users_ok :: "(string, User) dict \<Rightarrow> bool" where
  "users_ok us = (distinct (dict_keys us) \<and> list_all (\<lambda>(k, u). username u = k) us)"

definition groups_ok :: "(string, Group) dict \<Rightarrow> bool" where
  "groups_ok gs = (distinct (dict_keys gs) \<and> list_all (\<lambda>(k, g). Group.name g = k) gs)"

section \<open>Console output and the FreeIPA client\<close>

text \<open>
  What a run does is recorded as a trace of events: a line printed, or a call made on
  the \<open>ClientMeta\<close> session. The calls are those the script makes; \<open>user_add user\<close>
  and \<open>user_mod user\<close> stand for the call whose keyword arguments are the fields of
  \<open>user\<close> (\<open>a_uid=user.username, o_givenname=user.fname, ...\<close>), \<open>user_del\<close> for
  \<open>user_del(a_uid=..., o_preserve=False)\<close>.
\<close>

datatype call =
    user_add User
  | user_mod User
  | user_del string
  | group_add string "string option"
  | group_add_member string string
  | group_mod string "string option"
  | group_remove_member string string
  | group_del string

datatype event = Print string | Call call

datatype exn = BadRequest | KeyError

text \<open>
  A run either returns, leaving the session in some state, or is left by an exception.
  The session is any state \<open>'s\<close>; a call either returns in a new state or raises
  \<open>python_freeipa.exceptions.BadRequest\<close> (\<open>None\<close>). The trace holds everything that
  happened up to the return or the exception, the rejected call included.
\<close>

datatype 's outcome = Ok 's | Raised exn

type_synonym 's run = "'s outcome \<times> event list"

type_synonym 's client = "call \<Rightarrow> 's \<Rightarrow> 's option"

definition skip :: "'s \<Rightarrow> 's run" where
  "skip s = (Ok s, [])"

definition raise :: "exn \<Rightarrow> 's \<Rightarrow> 's run" where
  "raise e s = (Raised e, [])"

definition print_line :: "string \<Rightarrow> 's \<Rightarrow> 's run" where
  "print_line msg s = (Ok s, [Print msg])"

definition client_call :: "'s client \<Rightarrow> call \<Rightarrow> 's \<Rightarrow> 's run" where
  "client_call client c s =
     (case client c s of
        Some s' \<Rightarrow> (Ok s', [Call c])
      | None \<Rightarrow> (Raised BadRequest, [Call c]))"

text \<open>Sequential composition: the second statement runs unless the first one raised.\<close>

definition then_do :: "('s \<Rightarrow> 's run) \<Rightarrow> ('s \<Rightarrow> 's run) \<Rightarrow> 's \<Rightarrow> 's run" where
  "then_do f g s =
     (case f s of
        (Ok s', t) \<Rightarrow> (case g s' of (r, t') \<Rightarrow> (r, t @ t'))
      | (Raised e, t) \<Rightarrow> (Raised e, t))"

text \<open>A \<open>for\<close> loop over a list.\<close>

fun for_each :: "('a \<Rightarrow> 's \<Rightarrow> 's run) \<Rightarrow> 'a list \<Rightarrow> 's \<Rightarrow> 's run" where
  "for_each body [] s = (Ok s, [])"
| "for_each body (x # xs) s = then_do (body x) (for_each body xs) s"

text \<open>\<open>str(n)\<close> for the lengths that the f-strings print.\<close>

definition digit_char :: "nat \<Rightarrow> char" where
  "digit_char d = ''0123456789'' ! d"

function str_nat :: "nat \<Rightarrow> string" where
  "str_nat n =
     (if n < 10 then [digit_char n] else str_nat (n div 10) @ [digit_char (n mod 10)])"
  by pat_completeness auto
termination
  by (relation "measure (\<lambda>n. n)") auto

declare str_nat.simps [simp del]

section \<open>Applying the actions (lines 113-296)\<close>

definition freeipa_user_add :: "'s client \<Rightarrow> User \<Rightarrow> bool \<Rightarrow> 's \<Rightarrow> 's run" where
  "freeipa_user_add client user dry_run =
     then_do (print_line (''   * Adding User '' @ username user))
       (if dry_run then skip else client_call client (user_add user))"

definition freeipa_user_mod :: "'s client \<Rightarrow> User \<Rightarrow> bool \<Rightarrow> 's \<Rightarrow> 's run" where
  "freeipa_user_mod client user dry_run =
     then_do (print_line (''   * Updating User '' @ username user))
       (if dry_run then skip else client_call client (user_mod user))"

definition freeipa_user_del :: "'s client \<Rightarrow> User \<Rightarrow> bool \<Rightarrow> 's \<Rightarrow> 's run" where
  "freeipa_user_del client user dry_run =
     then_do (print_line (''   * Deleting User '' @ username user))
       (if dry_run then skip else client_call client (user_del (username user)))"

definition freeipa_group_add :: "'s client \<Rightarrow> Group \<Rightarrow> bool \<Rightarrow> 's \<Rightarrow> 's run" where
  "freeipa_group_add client grp dry_run =
     then_do (print_line (''   * Adding Group '' @ Group.name grp))
    (then_do
       (if \<not> dry_run
        then client_call client (group_add (Group.name grp) (description grp))
        else skip)
       (if length (members grp) \<noteq> 0
        then then_do
          (print_line (''     * Adding '' @ str_nat (length (members grp)) @ '' members''))
          (for_each
             (\<lambda>member.
                then_do (print_line (''       * Adding member '' @ member))
                  (if \<not> dry_run
                   then client_call client (group_add_member (Group.name grp) member)
                   else skip))
             (members grp))
        else skip))"

definition freeipa_group_mod ::
  "'s client \<Rightarrow> Group \<Rightarrow> Group \<Rightarrow> (string, User) dict \<Rightarrow> bool \<Rightarrow> 's \<Rightarrow> 's run" where
  "freeipa_group_mod client idpgroup freeipagroup idp_users dry_run =
     then_do (print_line (''   * Updating Group '' @ Group.name idpgroup))
    (then_do
       (if \<not> dry_run
        then (if description idpgroup \<noteq> description freeipagroup
              then client_call client (group_mod (Group.name idpgroup) (description idpgroup))
              else skip)
        else skip)
       (if members_differ (members idpgroup) (members freeipagroup)
        then then_do
          (for_each
             (\<lambda>member.
                if member \<notin> set (members freeipagroup)
                then then_do (print_line (''     * Adding member '' @ member))
                       (if \<not> dry_run
                        then client_call client (group_add_member (Group.name idpgroup) member)
                        else skip)
                else skip)
             (members idpgroup))
          (for_each
             (\<lambda>member.
                if member \<notin> set (members idpgroup)
                then (if \<not> has_key member idp_users
                      then skip
                      else then_do (print_line (''     * Removing member '' @ member))
                             (if \<not> dry_run
                              then client_call client
                                     (group_remove_member (Group.name idpgroup) member)
                              else skip))
                else skip)
             (members freeipagroup))
        else skip))"

definition freeipa_group_del :: "'s client \<Rightarrow> Group \<Rightarrow> bool \<Rightarrow> 's \<Rightarrow> 's run" where
  "freeipa_group_del client grp dry_run =
     then_do (print_line (''   * Deleting Group '' @ Group.name grp))
       (if \<not> dry_run then client_call client (group_del (Group.name grp)) else skip)"

section \<open>The reconciliation pass (lines 71-110 of sync)\<close>

text \<open>
  \<open>sync\<close> from the point where both snapshots are loaded: the four mappings are the
  results of \<open>fetch_ldap\<close> and \<open>fetch_freeipa\<close>. (Line 68 passes \<open>idp_password\<close>
  to \<open>fetch_ldap\<close>, a name that the script binds nowhere; the model is of what follows
  the two loader calls.) Each action list is computed from the
  snapshots right before it is applied; \<open>freeipa_groups[group.name]\<close> raises
  \<open>KeyError\<close> for a missing key.
\<close>

definition sync ::
  "'s client \<Rightarrow> (string, User) dict \<Rightarrow> (string, Group) dict \<Rightarrow>
   (string, User) dict \<Rightarrow> (string, Group) dict \<Rightarrow> bool \<Rightarrow> 's \<Rightarrow> 's run" where
  "sync client idp_users idp_groups freeipa_users freeipa_groups dry_run =
     then_do (if dry_run then print_line ''== DRY RUN =='' else skip)
    (then_do
       (let new_users = users_not_in idp_users freeipa_users in
        if length new_users \<noteq> 0
        then then_do
          (print_line ('' * Adding '' @ str_nat (length new_users) @ '' new users''))
          (for_each (\<lambda>user. freeipa_user_add client user dry_run) new_users)
        else skip)
    (then_do
       (let deleted_users = users_not_in freeipa_users idp_users in
        if length deleted_users \<noteq> 0
        then then_do
          (print_line ('' * Deleting '' @ str_nat (length deleted_users) @ '' users''))
          (for_each (\<lambda>user. freeipa_user_del client user dry_run) deleted_users)
        else skip)
    (then_do
       (let new_groups = groups_not_in idp_groups freeipa_groups in
        if length new_groups \<noteq> 0
        then then_do
          (print_line ('' * Adding '' @ str_nat (length new_groups) @ '' new groups''))
          (for_each (\<lambda>grp. freeipa_group_add client grp dry_run) new_groups)
        else skip)
    (then_do
       (let deleted_groups = groups_not_in freeipa_groups idp_groups in
        if length deleted_groups \<noteq> 0
        then then_do
          (print_line ('' * Deleting '' @ str_nat (length deleted_groups) @ '' groups''))
          (for_each (\<lambda>grp. freeipa_group_del client grp dry_run) deleted_groups)
        else skip)
    (then_do
       (let updated_users = modified_users idp_users freeipa_users in
        if length updated_users \<noteq> 0
        then then_do
          (print_line (''  * Updating '' @ str_nat (length updated_users) @ '' users''))
          (for_each (\<lambda>user. freeipa_user_mod client user dry_run) updated_users)
        else skip)
    (then_do
       (let updated_groups = modified_groups idp_groups freeipa_groups in
        if length updated_groups \<noteq> 0
        then then_do
          (print_line (''  * Updating '' @ str_nat (length updated_groups) @ '' groups''))
          (for_each
             (\<lambda>grp.
                case dict_get freeipa_groups (Group.name grp) of
                  None \<Rightarrow> raise KeyError
                | Some freeipagroup \<Rightarrow>
                    freeipa_group_mod client grp freeipagroup idp_users dry_run)
             updated_groups)
        else skip)
       (print_line ''Sync Complete'')))))))"

text \<open>Reading a trace: the calls made and the lines printed, in order.\<close>

fun calls_of :: "event list \<Rightarrow> call list" where
  "calls_of [] = []"
| "calls_of (Call c # t) = c # calls_of t"
| "calls_of (Print msg # t) = calls_of t"

fun prints_of :: "event list \<Rightarrow> string list" where
  "prints_of [] = []"
| "prints_of (Print msg # t) = msg # prints_of t"
| "prints_of (Call c # t) = prints_of t"

section \<open>The LDAP loader (lines 299-356 and 378-484)\<close>

text \<open>
  Strings read from the directory are \<open>bytes\<close>; a Python \<open>str\<close> is represented by
  its UTF-8 encoding, so that \<open>decode("utf-8")\<close> returns its argument when the bytes
  are well-formed UTF-8 and raises \<open>UnicodeDecodeError\<close> otherwise. Which byte strings
  are well-formed is the parameter \<open>utf8\<close> of the loader. Comparison, \<open>in\<close> and
  \<open>split\<close> at an ASCII separator give the same results on the encoding as on the
  \<open>str\<close>.
\<close>

datatype error = Exception string | IndexError | UnicodeDecodeError

definition and_then :: "error + 'a \<Rightarrow> ('a \<Rightarrow> error + 'b) \<Rightarrow> error + 'b" where
  "and_then m f = (case m of Inl e \<Rightarrow> Inl e | Inr x \<Rightarrow> f x)"

definition decode :: "(string \<Rightarrow> bool) \<Rightarrow> string \<Rightarrow> error + string" where
  "decode utf8 b = (if utf8 b then Inr b else Inl UnicodeDecodeError)"

text \<open>\<open>xs[i]\<close> for an index that is not negative.\<close>

definition index :: "'a list \<Rightarrow> nat \<Rightarrow> error + 'a" where
  "index xs i = (if i < length xs then Inr (xs ! i) else Inl IndexError)"

text \<open>\<open>s.split(sep)\<close> for a separator of one character.\<close>

fun str_split :: "char \<Rightarrow> string \<Rightarrow> string list" where
  "str_split sep [] = [[]]"
| "str_split sep (c # cs) =
     (if c = sep then [] # str_split sep cs
      else (case str_split sep cs of
              [] \<Rightarrow> [[c]]
            | part # parts \<Rightarrow> (c # part) # parts))"

text \<open>
  A row of \<open>conn.response\<close> is modelled by its \<open>raw_attributes\<close>: a dictionary from
  attribute names to lists of \<open>bytes\<close> values, the type \<open>ldap3\<close> gives them.
  \<open>fetch_string\<close> is specialised to that type: the value found, if it is not empty, is a
  list, whose first entry is a byte string.
\<close>

type_synonym attrs = "(string, string list) dict"

definition fetch_string ::
  "(string \<Rightarrow> bool) \<Rightarrow> attrs \<Rightarrow> string option \<Rightarrow> error + string option" where
  "fetch_string utf8 vals name_opt =
     (case name_opt of
        None \<Rightarrow> Inr None
      | Some nm \<Rightarrow>
          if length nm = 0 then Inr None
          else (case dict_get vals nm of
                  None \<Rightarrow> Inr None
                | Some val \<Rightarrow>
                    if val = [] then Inr None
                    else and_then (index val 0) (\<lambda>val0.
                         and_then (decode utf8 val0) (\<lambda>val1. Inr (Some val1)))))"

definition fetch_required_string ::
  "(string \<Rightarrow> bool) \<Rightarrow> attrs \<Rightarrow> string \<Rightarrow> error + string" where
  "fetch_required_string utf8 vals nm =
     (if length nm = 0 then Inl (Exception ''name must have length greater than 0'')
      else and_then (fetch_string utf8 vals (Some nm)) (\<lambda>val.
           case val of
             None \<Rightarrow> Inl (Exception (nm @ '' does not exist''))
           | Some v \<Rightarrow> Inr v))"

text \<open>
  The configuration values \<open>fetch_ldap\<close> reads: \<open>config["idp:ldap"][key]\<close> for the keys
  it indexes, \<open>config["idp:ldap"].get(key)\<close> for the optional ones, and
  \<open>config["freeipa"]["idp_name"]\<close>.
\<close>

record ldap_config =
  cfg_ignore_users :: string
  cfg_ignore_groups :: string
  cfg_attr_active_values :: string
  cfg_attr_username :: string
  cfg_attr_fname :: string
  cfg_attr_lname :: string
  cfg_attr_name :: string
  cfg_attr_email :: "string option"
  cfg_attr_uid :: "string option"
  cfg_idp_name :: string
  cfg_attr_shell :: "string option"
  cfg_attr_active :: string
  cfg_attr_group_members :: string
  cfg_attr_group_name :: string
  cfg_attr_group_description :: "string option"

text \<open>
  The body of the first loop (lines 412-438): one row of the user search, and the
  dictionary \<open>users\<close> built so far. The keyword arguments of \<open>User(...)\<close> are evaluated
  in the order in which they are written.
\<close>

definition fetch_ldap_user_row ::
  "(string \<Rightarrow> bool) \<Rightarrow> ldap_config \<Rightarrow> string list \<Rightarrow> string list \<Rightarrow> attrs \<Rightarrow>
   (string, User) dict \<Rightarrow> error + (string, User) dict" where
  "fetch_ldap_user_row utf8 config ignore_users active_values attr users =
     and_then (fetch_string utf8 attr (Some (cfg_attr_username config))) (\<lambda>idp_username_opt.
     case idp_username_opt of
       None \<Rightarrow> Inr users
     | Some idp_username' \<Rightarrow>
         if idp_username' \<in> set ignore_users then Inr users
         else
           and_then (index (str_split CHR ''@'' idp_username') 0) (\<lambda>username'.
           and_then (fetch_required_string utf8 attr (cfg_attr_fname config)) (\<lambda>fname'.
           and_then (fetch_required_string utf8 attr (cfg_attr_lname config)) (\<lambda>lname'.
           and_then (fetch_required_string utf8 attr (cfg_attr_name config)) (\<lambda>name'.
           and_then (fetch_string utf8 attr (cfg_attr_email config)) (\<lambda>email'.
           and_then (fetch_string utf8 attr (cfg_attr_uid config)) (\<lambda>uid'.
           and_then (fetch_string utf8 attr (cfg_attr_shell config)) (\<lambda>shell'.
           and_then (fetch_required_string utf8 attr (cfg_attr_active config)) (\<lambda>active'.
           let user = \<lparr>username = username', User.name = name', fname = fname',
                       lname = lname', shell = shell', uid = uid',
                       active = (if active' \<in> set active_values then True else False),
                       email = email', auth_type = ''idp'',
                       idp_name = cfg_idp_name config, idp_username = idp_username'\<rparr>
           in if has_key (username user) users
              then Inl (Exception (''Duplicate user '' @ username user))
              else Inr (dict_set users (username user) user))))))))))"

fun fetch_ldap_users_loop ::
  "(string \<Rightarrow> bool) \<Rightarrow> ldap_config \<Rightarrow> string list \<Rightarrow> string list \<Rightarrow> attrs list \<Rightarrow>
   (string, User) dict \<Rightarrow> error + (string, User) dict" where
  "fetch_ldap_users_loop utf8 config ignore_users active_values [] users = Inr users"
| "fetch_ldap_users_loop utf8 config ignore_users active_values (attr # rows) users =
     and_then (fetch_ldap_user_row utf8 config ignore_users active_values attr users)
       (fetch_ldap_users_loop utf8 config ignore_users active_values rows)"

text \<open>
  The body of the inner loop over the members of a group (lines 459-472), and that loop.
\<close>

definition fetch_ldap_member ::
  "(string \<Rightarrow> bool) \<Rightarrow> string list \<Rightarrow> (string, User) dict \<Rightarrow> string \<Rightarrow> string list \<Rightarrow>
   error + string list" where
  "fetch_ldap_member utf8 ignore_users users member0 members' =
     and_then (decode utf8 member0) (\<lambda>member1.
     and_then (index (str_split CHR '','' member1) 0) (\<lambda>member2.
     and_then (index (str_split CHR ''='' member2) 1) (\<lambda>member3.
     if member3 \<in> set ignore_users then Inr members'
     else
       and_then (index (str_split CHR ''@'' member3) 0) (\<lambda>member4.
       if \<not> has_key member4 users then Inr members'
       else Inr (members_set members' member4)))))"

fun fetch_ldap_members_loop ::
  "(string \<Rightarrow> bool) \<Rightarrow> string list \<Rightarrow> (string, User) dict \<Rightarrow> string list \<Rightarrow> string list \<Rightarrow>
   error + string list" where
  "fetch_ldap_members_loop utf8 ignore_users users [] members' = Inr members'"
| "fetch_ldap_members_loop utf8 ignore_users users (member0 # rest) members' =
     and_then (fetch_ldap_member utf8 ignore_users users member0 members')
       (fetch_ldap_members_loop utf8 ignore_users users rest)"

text \<open>The body of the second loop (lines 451-483): one row of the group search.\<close>

definition fetch_ldap_group_row ::
  "(string \<Rightarrow> bool) \<Rightarrow> ldap_config \<Rightarrow> string list \<Rightarrow> string list \<Rightarrow>
   (string, User) dict \<Rightarrow> attrs \<Rightarrow> (string, Group) dict \<Rightarrow> error + (string, Group) dict" where
  "fetch_ldap_group_row utf8 config ignore_users ignore_groups users attr groups =
     (if (case dict_get attr ''uniqueIdentifier'' of None \<Rightarrow> True | Some v \<Rightarrow> v = [])
      then Inr groups
      else
        and_then
          (case dict_get attr (cfg_attr_group_members config) of
             None \<Rightarrow> Inr []
           | Some ms \<Rightarrow>
               if ms = [] then Inr []
               else fetch_ldap_members_loop utf8 ignore_users users ms []) (\<lambda>members'.
        and_then (fetch_required_string utf8 attr (cfg_attr_group_name config)) (\<lambda>name'.
        and_then (fetch_string utf8 attr (cfg_attr_group_description config)) (\<lambda>description'.
        let grp = \<lparr>Group.name = name', description = description', members = members'\<rparr>
        in if Group.name grp \<in> set ignore_groups then Inr groups
           else Inr (dict_set groups (Group.name grp) grp)))))"

fun fetch_ldap_groups_loop ::
  "(string \<Rightarrow> bool) \<Rightarrow> ldap_config \<Rightarrow> string list \<Rightarrow> string list \<Rightarrow>
   (string, User) dict \<Rightarrow> attrs list \<Rightarrow> (string, Group) dict \<Rightarrow> error + (string, Group) dict" where
  "fetch_ldap_groups_loop utf8 config ignore_users ignore_groups users [] groups = Inr groups"
| "fetch_ldap_groups_loop utf8 config ignore_users ignore_groups users (attr # rows) groups =
     and_then (fetch_ldap_group_row utf8 config ignore_users ignore_groups users attr groups)
       (fetch_ldap_groups_loop utf8 config ignore_users ignore_groups users rows)"

text \<open>
  \<open>fetch_ldap\<close>, given what the two searches left in \<open>conn.response\<close>: \<open>None\<close>, or
  the list of rows.
\<close>

definition fetch_ldap ::
  "(string \<Rightarrow> bool) \<Rightarrow> ldap_config \<Rightarrow> attrs list option \<Rightarrow> attrs list option \<Rightarrow>
   error + ((string, User) dict \<times> (string, Group) dict)" where
  "fetch_ldap utf8 config user_response group_response =
     (let ignore_users = str_split CHR '','' (cfg_ignore_users config);
          ignore_groups = str_split CHR '','' (cfg_ignore_groups config);
          active_values = str_split CHR '','' (cfg_attr_active_values config)
      in case user_response of
           None \<Rightarrow> Inl (Exception ''user search failed'')
         | Some user_rows \<Rightarrow>
             and_then
               (fetch_ldap_users_loop utf8 config ignore_users active_values user_rows [])
               (\<lambda>users.
                  case group_response of
                    None \<Rightarrow> Inl (Exception ''group search failed'')
                  | Some group_rows \<Rightarrow>
                      and_then
                        (fetch_ldap_groups_loop utf8 config ignore_users ignore_groups
                           users group_rows [])
                        (\<lambda>groups. Inr (users, groups))))"

section \<open>Reading the model: scripts, call lists and deltas\<close>

text \<open>
  The definitions of this section are not code of the script: they are the vocabulary
  of the theorems. A script is the list of events an action goes through when no call
  is rejected; \<open>exec\<close> runs a script against a client, stopping at the first
  rejected call. Each action is shown below to be \<open>exec\<close> of its script.
\<close>

fun exec :: "'s client \<Rightarrow> event list \<Rightarrow> 's \<Rightarrow> 's run" where
  "exec client [] s = (Ok s, [])"
| "exec client (Print msg # es) s = then_do (print_line msg) (exec client es) s"
| "exec client (Call c # es) s = then_do (client_call client c) (exec client es) s"

definition user_add_events :: "User \<Rightarrow> bool \<Rightarrow> event list" where
  "user_add_events user dry_run =
     Print (''   * Adding User '' @ username user) #
     (if dry_run then [] else [Call (user_add user)])"

definition user_mod_events :: "User \<Rightarrow> bool \<Rightarrow> event list" where
  "user_mod_events user dry_run =
     Print (''   * Updating User '' @ username user) #
     (if dry_run then [] else [Call (user_mod user)])"

definition user_del_events :: "User \<Rightarrow> bool \<Rightarrow> event list" where
  "user_del_events user dry_run =
     Print (''   * Deleting User '' @ username user) #
     (if dry_run then [] else [Call (user_del (username user))])"

definition group_add_events :: "Group \<Rightarrow> bool \<Rightarrow> event list" where
  "group_add_events grp dry_run =
     Print (''   * Adding Group '' @ Group.name grp) #
     (if \<not> dry_run then [Call (group_add (Group.name grp) (description grp))] else []) @
     (if length (members grp) \<noteq> 0
      then Print (''     * Adding '' @ str_nat (length (members grp)) @ '' members'') #
           concat (map (\<lambda>member.
                     Print (''       * Adding member '' @ member) #
                     (if \<not> dry_run
                      then [Call (group_add_member (Group.name grp) member)] else []))
                  (members grp))
      else [])"

definition group_mod_events ::
  "Group \<Rightarrow> Group \<Rightarrow> (string, User) dict \<Rightarrow> bool \<Rightarrow> event list" where
  "group_mod_events idpgroup freeipagroup idp_users dry_run =
     Print (''   * Updating Group '' @ Group.name idpgroup) #
     (if \<not> dry_run
      then (if description idpgroup \<noteq> description freeipagroup
            then [Call (group_mod (Group.name idpgroup) (description idpgroup))] else [])
      else []) @
     (if members_differ (members idpgroup) (members freeipagroup)
      then concat (map (\<lambda>member.
                     if member \<notin> set (members freeipagroup)
                     then Print (''     * Adding member '' @ member) #
                          (if \<not> dry_run
                           then [Call (group_add_member (Group.name idpgroup) member)] else [])
                     else [])
                  (members idpgroup)) @
           concat (map (\<lambda>member.
                     if member \<notin> set (members idpgroup)
                     then (if \<not> has_key member idp_users then []
                           else Print (''     * Removing member '' @ member) #
                                (if \<not> dry_run
                                 then [Call (group_remove_member (Group.name idpgroup) member)]
                                 else []))
                     else [])
                  (members freeipagroup))
      else [])"

definition group_del_events :: "Group \<Rightarrow> bool \<Rightarrow> event list" where
  "group_del_events grp dry_run =
     Print (''   * Deleting Group '' @ Group.name grp) #
     (if \<not> dry_run then [Call (group_del (Group.name grp))] else [])"

definition sync_events ::
  "(string, User) dict \<Rightarrow> (string, Group) dict \<Rightarrow>
   (string, User) dict \<Rightarrow> (string, Group) dict \<Rightarrow> bool \<Rightarrow> event list" where
  "sync_events idp_users idp_groups freeipa_users freeipa_groups dry_run =
     (if dry_run then [Print ''== DRY RUN ==''] else []) @
     (let new_users = users_not_in idp_users freeipa_users in
      if length new_users \<noteq> 0
      then Print ('' * Adding '' @ str_nat (length new_users) @ '' new users'') #
           concat (map (\<lambda>user. user_add_events user dry_run) new_users)
      else []) @
     (let deleted_users = users_not_in freeipa_users idp_users in
      if length deleted_users \<noteq> 0
      then Print ('' * Deleting '' @ str_nat (length deleted_users) @ '' users'') #
           concat (map (\<lambda>user. user_del_events user dry_run) deleted_users)
      else []) @
     (let new_groups = groups_not_in idp_groups freeipa_groups in
      if length new_groups \<noteq> 0
      then Print ('' * Adding '' @ str_nat (length new_groups) @ '' new groups'') #
           concat (map (\<lambda>grp. group_add_events grp dry_run) new_groups)
      else []) @
     (let deleted_groups = groups_not_in freeipa_groups idp_groups in
      if length deleted_groups \<noteq> 0
      then Print ('' * Deleting '' @ str_nat (length deleted_groups) @ '' groups'') #
           concat (map (\<lambda>grp. group_del_events grp dry_run) deleted_groups)
      else []) @
     (let updated_users = modified_users idp_users freeipa_users in
      if length updated_users \<noteq> 0
      then Print (''  * Updating '' @ str_nat (length updated_users) @ '' users'') #
           concat (map (\<lambda>user. user_mod_events user dry_run) updated_users)
      else []) @
     (let updated_groups = modified_groups idp_groups freeipa_groups in
      if length updated_groups \<noteq> 0
      then Print (''  * Updating '' @ str_nat (length updated_groups) @ '' groups'') #
           concat (map (\<lambda>grp.
                     case dict_get freeipa_groups (Group.name grp) of
                       None \<Rightarrow> []
                     | Some freeipagroup \<Rightarrow>
                         group_mod_events grp freeipagroup idp_users dry_run)
                  updated_groups)
      else []) @
     [Print ''Sync Complete'']"

text \<open>The membership changes among the calls of a trace, in the order they were made.\<close>

fun added_members :: "call list \<Rightarrow> string list" where
  "added_members [] = []"
| "added_members (group_add_member g m # cs) = m # added_members cs"
| "added_members (c # cs) = added_members cs"

fun removed_members :: "call list \<Rightarrow> string list" where
  "removed_members [] = []"
| "removed_members (group_remove_member g m # cs) = m # removed_members cs"
| "removed_members (c # cs) = removed_members cs"

text \<open>
  The membership delta that the two loops of \<open>freeipa_group_mod\<close> go through
  (lines 265-278): the members the first loop adds, and those the second removes.
\<close>

definition members_to_add :: "Group \<Rightarrow> Group \<Rightarrow> string list" where
  "members_to_add idpgroup freeipagroup =
     filter (\<lambda>member. member \<notin> set (members freeipagroup)) (members idpgroup)"

definition members_to_remove :: "Group \<Rightarrow> Group \<Rightarrow> (string, User) dict \<Rightarrow> string list" where
  "members_to_remove idpgroup freeipagroup idp_users =
     filter (\<lambda>member. member \<notin> set (members idpgroup) \<and> has_key member idp_users)
       (members freeipagroup)"

text \<open>The six lists that \<open>sync\<close> computes, at lines 74, 80, 86, 92, 98 and 104.\<close>

definition action_lists ::
  "(string, User) dict \<Rightarrow> (string, Group) dict \<Rightarrow>
   (string, User) dict \<Rightarrow> (string, Group) dict \<Rightarrow>
   User list \<times> User list \<times> Group list \<times> Group list \<times> User list \<times> Group list" where
  "action_lists idp_users idp_groups freeipa_users freeipa_groups =
     (users_not_in idp_users freeipa_users,
      users_not_in freeipa_users idp_users,
      groups_not_in idp_groups freeipa_groups,
      groups_not_in freeipa_groups idp_groups,
      modified_users idp_users freeipa_users,
      modified_groups idp_groups freeipa_groups)"

text \<open>The calls of one group addition and of one group modification, in order.\<close>

definition group_add_calls :: "Group \<Rightarrow> call list" where
  "group_add_calls grp =
     group_add (Group.name grp) (description grp) #
     map (group_add_member (Group.name grp)) (members grp)"

definition group_mod_calls :: "Group \<Rightarrow> Group \<Rightarrow> (string, User) dict \<Rightarrow> call list" where
  "group_mod_calls idpgroup freeipagroup idp_users =
     (if description idpgroup \<noteq> description freeipagroup
      then [group_mod (Group.name idpgroup) (description idpgroup)] else []) @
     (if members_differ (members idpgroup) (members freeipagroup)
      then map (group_add_member (Group.name idpgroup))
             (members_to_add idpgroup freeipagroup) @
           map (group_remove_member (Group.name idpgroup))
             (members_to_remove idpgroup freeipagroup idp_users)
      else [])"

text \<open>The calls of a whole pass that is not a dry run, category by category.\<close>

definition sync_calls ::
  "(string, User) dict \<Rightarrow> (string, Group) dict \<Rightarrow>
   (string, User) dict \<Rightarrow> (string, Group) dict \<Rightarrow> call list" where
  "sync_calls idp_users idp_groups freeipa_users freeipa_groups =
     map user_add (users_not_in idp_users freeipa_users) @
     map (\<lambda>user. user_del (username user)) (users_not_in freeipa_users idp_users) @
     concat (map group_add_calls (groups_not_in idp_groups freeipa_groups)) @
     map (\<lambda>grp. group_del (Group.name grp)) (groups_not_in freeipa_groups idp_groups) @
     map user_mod (modified_users idp_users freeipa_users) @
     concat (map (\<lambda>grp.
               case dict_get freeipa_groups (Group.name grp) of
                 None \<Rightarrow> []
               | Some freeipagroup \<Rightarrow> group_mod_calls grp freeipagroup idp_users)
            (modified_groups idp_groups freeipa_groups))"

text \<open>
  What dry-run mode promises for an action \<open>act\<close> (a function of the flag) started in
  session state \<open>s\<close>: the dry run returns, leaves the session as it was and makes no
  call; its output is that of the real run when the real run returns, and otherwise
  starts with what the real run printed before the exception.
\<close>

definition dry_run_faithful :: "(bool \<Rightarrow> 's \<Rightarrow> 's run) \<Rightarrow> 's \<Rightarrow> bool" where
  "dry_run_faithful act s =
     (case act True s of
        (Raised e, t) \<Rightarrow> False
      | (Ok s1, t) \<Rightarrow>
          s1 = s \<and> calls_of t = [] \<and>
          (case act False s of
             (Ok s2, t') \<Rightarrow> prints_of t' = prints_of t
           | (Raised e, t') \<Rightarrow> prefix (prints_of t') (prints_of t)))"

text \<open>
  The username under which the first loop of \<open>fetch_ldap\<close> stores a row (lines
  414-419): \<open>None\<close> for a row it skips, or that raises before the username is known.
\<close>

definition row_username ::
  "(string \<Rightarrow> bool) \<Rightarrow> ldap_config \<Rightarrow> string list \<Rightarrow> attrs \<Rightarrow> string option" where
  "row_username utf8 config ignore_users attr =
     (case fetch_string utf8 attr (Some (cfg_attr_username config)) of
        Inr (Some idp_username') \<Rightarrow>
          if idp_username' \<in> set ignore_users then None
          else (case index (str_split CHR ''@'' idp_username') 0 of
                  Inr username' \<Rightarrow> Some username'
                | Inl e \<Rightarrow> None)
      | Inr None \<Rightarrow> None
      | Inl e \<Rightarrow> None)"



section \<open>Example data\<close>

text \<open>
  Two small snapshots, a session that accepts every call and one that rejects every
  call, and a directory: the concrete inputs at which the theorems below are evaluated.
\<close>

definition example_user :: "string \<Rightarrow> string option \<Rightarrow> User" where
  "example_user n sh =
     \<lparr>username = n, User.name = n, fname = n, lname = ''Doe'', shell = sh, uid = None,
      active = True, email = None, auth_type = ''idp'', idp_name = ''corp'',
      idp_username = n\<rparr>"

definition example_group :: "string \<Rightarrow> string option \<Rightarrow> string list \<Rightarrow> Group" where
  "example_group n d ms = \<lparr>Group.name = n, description = d, members = ms\<rparr>"

definition ex_idp_users :: "(string, User) dict" where
  "ex_idp_users =
     [(''alice'', example_user ''alice'' None),
      (''bob'', example_user ''bob'' (Some ''/bin/zsh'')),
      (''dave'', example_user ''dave'' None)]"

definition ex_freeipa_users :: "(string, User) dict" where
  "ex_freeipa_users =
     [(''bob'', example_user ''bob'' (Some ''/bin/sh'')),
      (''carol'', example_user ''carol'' None),
      (''dave'', example_user ''dave'' (Some ''/bin/sh''))]"

definition ex_idp_groups :: "(string, Group) dict" where
  "ex_idp_groups =
     [(''eng'', example_group ''eng'' (Some ''Engineering'') [''alice'', ''bob'']),
      (''ops'', example_group ''ops'' None [''alice''])]"

definition ex_freeipa_groups :: "(string, Group) dict" where
  "ex_freeipa_groups =
     [(''eng'', example_group ''eng'' None [''bob'', ''carol'', ''dave'']),
      (''old'', example_group ''old'' None [''carol''])]"

definition accept_all :: "unit client" where
  "accept_all c s = Some s"

definition reject_all :: "unit client" where
  "reject_all c s = None"

definition ex_config :: ldap_config where
  "ex_config =
     \<lparr>cfg_ignore_users = ''admin,root'', cfg_ignore_groups = ''admins'',
      cfg_attr_active_values = ''active'', cfg_attr_username = ''uid'',
      cfg_attr_fname = ''givenName'', cfg_attr_lname = ''sn'', cfg_attr_name = ''cn'',
      cfg_attr_email = Some ''mail'', cfg_attr_uid = None, cfg_idp_name = ''corp'',
      cfg_attr_shell = None, cfg_attr_active = ''status'',
      cfg_attr_group_members = ''member'', cfg_attr_group_name = ''cn'',
      cfg_attr_group_description = Some ''description''\<rparr>"

definition ex_user_row :: "string \<Rightarrow> attrs" where
  "ex_user_row login =
     [(''uid'', [login]), (''givenName'', [''J'']), (''sn'', [''Doe'']),
      (''cn'', [''J Doe'']), (''status'', [''active''])]"

definition ex_group_row :: "string \<Rightarrow> string \<Rightarrow> string list \<Rightarrow> attrs" where
  "ex_group_row n d ms =
     [(''uniqueIdentifier'', [''1'']), (''cn'', [n]), (''description'', [d]),
      (''member'', ms)]"

definition ex_user_rows :: "attrs list" where
  "ex_user_rows =
     [ex_user_row ''alice@example.com'', ex_user_row ''admin'', ex_user_row ''bob'']"

definition ex_group_rows :: "attrs list" where
  "ex_group_rows =
     [ex_group_row ''eng'' ''Engineering''
        [''uid=alice@example.com,ou=people'', ''uid=zed,ou=people'',
         ''uid=admin,ou=people'', ''uid=bob''],
      ex_group_row ''admins'' ''Administrators'' [''uid=bob'']]"

section \<open>The diff engine\<close>

subsection \<open>Auxiliary facts\<close>

lemma user_match_iff:
  "user_match a b \<longleftrightarrow>
     fname a = fname b \<and> lname a = lname b \<and> User.name a = User.name b \<and>
     (email a = None \<or> email a = email b) \<and> active a = active b \<and>
     auth_type a = auth_type b \<and> idp_name a = idp_name b \<and>
     idp_username a = idp_username b \<and>
     (uid a = None \<or> uid a = uid b) \<and> (shell a = None \<or> shell a = shell b)"
  unfolding user_match_def by auto

lemma user_match_refl: "user_match u u"
  by (simp add: user_match_iff)

lemma group_match_refl: "group_match g g"
  by (simp add: group_match_def members_differ_def)

lemma modified_users_loop_filter:
  "modified_users_loop xs f acc =
     acc @ filter (\<lambda>u. case dict_get f (username u) of
                          None \<Rightarrow> False | Some v \<Rightarrow> \<not> user_match u v) xs"
  by (induction xs arbitrary: acc) (auto split: option.splits)

lemma modified_groups_loop_filter:
  "modified_groups_loop xs f acc =
     acc @ filter (\<lambda>g. case dict_get f (Group.name g) of
                          None \<Rightarrow> False | Some v \<Rightarrow> \<not> group_match g v) xs"
  by (induction xs arbitrary: acc) (auto split: option.splits)

lemma has_key_map_of: "has_key k d \<longleftrightarrow> map_of d k \<noteq> None"
  by (simp add: has_key_def dict_keys_def map_of_eq_None_iff)

lemma has_key_member: "(k, v) \<in> set d \<Longrightarrow> has_key k d"
  by (force simp: has_key_def dict_keys_def)

lemma users_ok_username: "users_ok us \<Longrightarrow> (k, u) \<in> set us \<Longrightarrow> username u = k"
  by (auto simp: users_ok_def list_all_iff)

lemma users_ok_get: "users_ok us \<Longrightarrow> (k, u) \<in> set us \<Longrightarrow> dict_get us k = Some u"
  by (simp add: users_ok_def dict_keys_def dict_get_def)

lemma groups_ok_name: "groups_ok gs \<Longrightarrow> (k, g) \<in> set gs \<Longrightarrow> Group.name g = k"
  by (auto simp: groups_ok_def list_all_iff)

lemma groups_ok_get: "groups_ok gs \<Longrightarrow> (k, g) \<in> set gs \<Longrightarrow> dict_get gs k = Some g"
  by (simp add: groups_ok_def dict_keys_def dict_get_def)

text \<open>
  How often a key occurs among the usernames of the values selected by \<open>P\<close>: once if
  the key is present and its value selected, never otherwise.
\<close>

lemma count_filter_users:
  "distinct (map fst d) \<Longrightarrow> list_all (\<lambda>(k, u). username u = k) d \<Longrightarrow>
   count_list (map username (filter P (map snd d))) k =
     (case map_of d k of Some u \<Rightarrow> if P u then 1 else 0 | None \<Rightarrow> 0)"
proof (induction d)
  case Nil
  show ?case by simp
next
  case (Cons p d)
  obtain a u where p: "p = (a, u)" by (cases p)
  from Cons.prems p have ua: "username u = a" and nin: "a \<notin> fst ` set d"
    and d: "distinct (map fst d)" and all: "list_all (\<lambda>(k, u). username u = k) d"
    by auto
  from nin have none: "map_of d a = None" by (simp add: map_of_eq_None_iff)
  show ?case
  proof (cases "a = k")
    case True
    with Cons.IH[OF d all] none p ua show ?thesis by simp
  next
    case False
    with Cons.IH[OF d all] p ua show ?thesis by simp
  qed
qed

lemma users_not_in_self: "users_ok us \<Longrightarrow> users_not_in us us = []"
proof -
  assume ok: "users_ok us"
  have "has_key (username u) us" if "u \<in> set (dict_values us)" for u
  proof -
    from that obtain k where ku: "(k, u) \<in> set us" by (auto simp: dict_values_def)
    with users_ok_username[OF ok ku] show ?thesis by (simp add: has_key_member)
  qed
  then show ?thesis by (simp add: users_not_in_def filter_empty_conv)
qed

lemma groups_not_in_self: "groups_ok gs \<Longrightarrow> groups_not_in gs gs = []"
proof -
  assume ok: "groups_ok gs"
  have "has_key (Group.name g) gs" if "g \<in> set (dict_values gs)" for g
  proof -
    from that obtain k where kg: "(k, g) \<in> set gs" by (auto simp: dict_values_def)
    with groups_ok_name[OF ok kg] show ?thesis by (simp add: has_key_member)
  qed
  then show ?thesis by (simp add: groups_not_in_def filter_empty_conv)
qed

lemma modified_users_self: "users_ok us \<Longrightarrow> modified_users us us = []"
proof -
  assume ok: "users_ok us"
  have "dict_get us (username u) = Some u" if "u \<in> set (dict_values us)" for u
  proof -
    from that obtain k where ku: "(k, u) \<in> set us" by (auto simp: dict_values_def)
    with users_ok_username[OF ok ku] users_ok_get[OF ok ku] show ?thesis by simp
  qed
  then show ?thesis
    unfolding modified_users_def modified_users_loop_filter
    by (simp add: filter_empty_conv user_match_refl)
qed

lemma modified_groups_self: "groups_ok gs \<Longrightarrow> modified_groups gs gs = []"
proof -
  assume ok: "groups_ok gs"
  have "dict_get gs (Group.name g) = Some g" if "g \<in> set (dict_values gs)" for g
  proof -
    from that obtain k where kg: "(k, g) \<in> set gs" by (auto simp: dict_values_def)
    with groups_ok_name[OF ok kg] groups_ok_get[OF ok kg] show ?thesis by simp
  qed
  then show ?thesis
    unfolding modified_groups_def modified_groups_loop_filter
    by (simp add: filter_empty_conv group_match_refl)
qed

lemma ex_users_ok: "users_ok ex_idp_users \<and> users_ok ex_freeipa_users"
  by (simp add: users_ok_def dict_keys_def ex_idp_users_def ex_freeipa_users_def
        example_user_def)

lemma ex_groups_ok: "groups_ok ex_idp_groups \<and> groups_ok ex_freeipa_groups"
  by (simp add: groups_ok_def dict_keys_def ex_idp_groups_def ex_freeipa_groups_def
        example_group_def)

subsection \<open>User equality\<close>

text \<open>
  \<^bold>\<open>C4\<close>. User equality is directional, with pass-through optional fields. A desired
  user matches a current user exactly when family name, given name, display name,
  active flag, authentication type, federation provider name and federation subject
  id are equal, and each of email, uid and shell is either \<open>None\<close> on the desired
  side (then any current value is accepted) or equal to the current value.
\<close>

theorem C4_user_match:
  "user_match desired current \<longleftrightarrow>
     lname desired = lname current \<and>
     fname desired = fname current \<and>
     User.name desired = User.name current \<and>
     active desired = active current \<and>
     auth_type desired = auth_type current \<and>
     idp_name desired = idp_name current \<and>
     idp_username desired = idp_username current \<and>
     (email desired = None \<or> email desired = email current) \<and>
     (uid desired = None \<or> uid desired = uid current) \<and>
     (shell desired = None \<or> shell desired = shell current)"
  unfolding user_match_def by auto

text \<open>
  At the example users: \<open>dave\<close> has no shell on the desired side and matches a current
  \<open>dave\<close> with a shell; \<open>bob\<close> has a shell on the desired side and does not match a
  current \<open>bob\<close> with another one, nor one with none.
\<close>

theorem C4_user_match_witness:
  "user_match (example_user ''dave'' None) (example_user ''dave'' (Some ''/bin/sh'')) \<and>
   \<not> user_match (example_user ''bob'' (Some ''/bin/zsh'')) (example_user ''bob'' (Some ''/bin/sh'')) \<and>
   \<not> user_match (example_user ''bob'' (Some ''/bin/zsh'')) (example_user ''bob'' None)"
  using C4_user_match [of "example_user ''dave'' None" "example_user ''dave'' (Some ''/bin/sh'')"]
    C4_user_match [of "example_user ''bob'' (Some ''/bin/zsh'')" "example_user ''bob'' (Some ''/bin/sh'')"]
    C4_user_match [of "example_user ''bob'' (Some ''/bin/zsh'')" "example_user ''bob'' None"]
  by (simp add: example_user_def)

subsection \<open>Partition of the usernames\<close>

text \<open>
  \<^bold>\<open>C3\<close>. For two snapshots (mappings with distinct keys, every user stored under its
  username), every username \<open>k\<close> of the desired or of the current users falls in
  exactly one of four cases: absent from current, and then it occurs once among the
  users to add and in no other list; absent from desired, and then it occurs once
  among the users to delete and in no other list; present in both with \<open>user_match\<close>
  failing, and then it occurs once among the users to modify and in no other list;
  present in both with \<open>user_match\<close> holding, and then it occurs in no list.
\<close>

theorem C3_user_partition:
  assumes d: "users_ok desired" and c: "users_ok current"
    and k: "has_key k desired \<or> has_key k current"
  shows
    "(\<not> has_key k current \<longrightarrow>
        count_list (map username (users_not_in desired current)) k = 1 \<and>
        count_list (map username (users_not_in current desired)) k = 0 \<and>
        count_list (map username (modified_users desired current)) k = 0) \<and>
     (\<not> has_key k desired \<longrightarrow>
        count_list (map username (users_not_in desired current)) k = 0 \<and>
        count_list (map username (users_not_in current desired)) k = 1 \<and>
        count_list (map username (modified_users desired current)) k = 0) \<and>
     (has_key k desired \<and> has_key k current \<longrightarrow>
        (\<exists>u v. dict_get desired k = Some u \<and> dict_get current k = Some v \<and>
           count_list (map username (users_not_in desired current)) k = 0 \<and>
           count_list (map username (users_not_in current desired)) k = 0 \<and>
           count_list (map username (modified_users desired current)) k =
             (if user_match u v then 0 else 1)))"
proof -
  from d have d1: "distinct (map fst desired)"
    and d2: "list_all (\<lambda>(k, u). username u = k) desired"
    by (simp_all add: users_ok_def dict_keys_def)
  from c have c1: "distinct (map fst current)"
    and c2: "list_all (\<lambda>(k, u). username u = k) current"
    by (simp_all add: users_ok_def dict_keys_def)
  have add: "count_list (map username (users_not_in desired current)) k =
      (case map_of desired k of
         Some u \<Rightarrow> if \<not> has_key (username u) current then 1 else 0 | None \<Rightarrow> 0)"
    unfolding users_not_in_def dict_values_def by (rule count_filter_users[OF d1 d2])
  have del: "count_list (map username (users_not_in current desired)) k =
      (case map_of current k of
         Some u \<Rightarrow> if \<not> has_key (username u) desired then 1 else 0 | None \<Rightarrow> 0)"
    unfolding users_not_in_def dict_values_def by (rule count_filter_users[OF c1 c2])
  have mod: "count_list (map username (modified_users desired current)) k =
      (case map_of desired k of
         Some u \<Rightarrow> if (case dict_get current (username u) of
                         None \<Rightarrow> False | Some v \<Rightarrow> \<not> user_match u v) then 1 else 0
       | None \<Rightarrow> 0)"
    unfolding modified_users_def modified_users_loop_filter dict_values_def append_Nil
    by (rule count_filter_users[OF d1 d2])
  have un: "username u = k" if "map_of desired k = Some u" for u
    using that d2 by (auto dest!: map_of_SomeD simp: list_all_iff)
  have un': "username u = k" if "map_of current k = Some u" for u
    using that c2 by (auto dest!: map_of_SomeD simp: list_all_iff)
  show ?thesis
  proof (cases "map_of desired k")
    case None
    note dn = this
    show ?thesis
    proof (cases "map_of current k")
      case None
      with dn k show ?thesis by (simp add: has_key_map_of)
    next
      case (Some v)
      with dn un'[OF Some] show ?thesis
        unfolding add del mod by (simp add: has_key_map_of dict_get_def)
    qed
  next
    case (Some u)
    note ds = this
    show ?thesis
    proof (cases "map_of current k")
      case None
      with ds un[OF ds] show ?thesis
        unfolding add del mod by (simp add: has_key_map_of dict_get_def)
    next
      case (Some v)
      with ds un[OF ds] un'[OF Some] show ?thesis
        unfolding add del mod by (simp add: has_key_map_of dict_get_def)
    qed
  qed
qed

lemma ex_has_key:
  "has_key ''alice'' ex_idp_users" "\<not> has_key ''alice'' ex_freeipa_users"
  "\<not> has_key ''carol'' ex_idp_users" "has_key ''carol'' ex_freeipa_users"
  "has_key ''bob'' ex_idp_users" "has_key ''bob'' ex_freeipa_users"
  "has_key ''dave'' ex_idp_users" "has_key ''dave'' ex_freeipa_users"
  by (simp_all add: has_key_def dict_keys_def ex_idp_users_def ex_freeipa_users_def)

lemma ex_dict_get:
  "dict_get ex_idp_users ''bob'' = Some (example_user ''bob'' (Some ''/bin/zsh''))"
  "dict_get ex_freeipa_users ''bob'' = Some (example_user ''bob'' (Some ''/bin/sh''))"
  "dict_get ex_idp_users ''dave'' = Some (example_user ''dave'' None)"
  "dict_get ex_freeipa_users ''dave'' = Some (example_user ''dave'' (Some ''/bin/sh''))"
  by (simp_all add: dict_get_def ex_idp_users_def ex_freeipa_users_def)

lemma ex_user_match:
  "\<not> user_match (example_user ''bob'' (Some ''/bin/zsh'')) (example_user ''bob'' (Some ''/bin/sh''))"
  "user_match (example_user ''dave'' None) (example_user ''dave'' (Some ''/bin/sh''))"
  by (simp_all add: user_match_def example_user_def)

text \<open>
  At the example snapshots: \<open>alice\<close> is only to be added, \<open>carol\<close> only to be
  deleted, \<open>bob\<close> (whose shell differs) only to be modified, and \<open>dave\<close> (no shell
  on the desired side) is in no list.
\<close>

theorem C3_user_partition_witness:
  "users_ok ex_idp_users \<and> users_ok ex_freeipa_users \<and>
   count_list (map username (users_not_in ex_idp_users ex_freeipa_users)) ''alice'' = 1 \<and>
   count_list (map username (users_not_in ex_freeipa_users ex_idp_users)) ''alice'' = 0 \<and>
   count_list (map username (modified_users ex_idp_users ex_freeipa_users)) ''alice'' = 0 \<and>
   count_list (map username (users_not_in ex_idp_users ex_freeipa_users)) ''carol'' = 0 \<and>
   count_list (map username (users_not_in ex_freeipa_users ex_idp_users)) ''carol'' = 1 \<and>
   count_list (map username (modified_users ex_idp_users ex_freeipa_users)) ''carol'' = 0 \<and>
   count_list (map username (users_not_in ex_idp_users ex_freeipa_users)) ''bob'' = 0 \<and>
   count_list (map username (users_not_in ex_freeipa_users ex_idp_users)) ''bob'' = 0 \<and>
   count_list (map username (modified_users ex_idp_users ex_freeipa_users)) ''bob'' = 1 \<and>
   count_list (map username (users_not_in ex_idp_users ex_freeipa_users)) ''dave'' = 0 \<and>
   count_list (map username (users_not_in ex_freeipa_users ex_idp_users)) ''dave'' = 0 \<and>
   count_list (map username (modified_users ex_idp_users ex_freeipa_users)) ''dave'' = 0"
proof -
  have ok1: "users_ok ex_idp_users" and ok2: "users_ok ex_freeipa_users"
    using ex_users_ok by simp_all
  have alice: "has_key ''alice'' ex_idp_users \<or> has_key ''alice'' ex_freeipa_users"
    and carol: "has_key ''carol'' ex_idp_users \<or> has_key ''carol'' ex_freeipa_users"
    and bob: "has_key ''bob'' ex_idp_users \<or> has_key ''bob'' ex_freeipa_users"
    and dave: "has_key ''dave'' ex_idp_users \<or> has_key ''dave'' ex_freeipa_users"
    by (simp_all add: ex_has_key)
  show ?thesis
    using ok1 ok2 C3_user_partition [OF ok1 ok2 alice] C3_user_partition [OF ok1 ok2 carol]
      C3_user_partition [OF ok1 ok2 bob] C3_user_partition [OF ok1 ok2 dave]
    by (simp add: ex_has_key ex_dict_get ex_user_match)
qed

section \<open>Applying the actions\<close>

subsection \<open>Laws of sequencing\<close>

lemma then_do_skip_left: "then_do skip f = f"
  by (rule ext) (simp add: then_do_def skip_def split: prod.splits)

lemma then_do_skip_right: "then_do f skip = f"
  by (rule ext) (simp add: then_do_def skip_def split: prod.splits outcome.splits)

lemma then_do_assoc: "then_do (then_do f g) h = then_do f (then_do g h)"
  by (rule ext) (simp add: then_do_def split: prod.splits outcome.splits)

lemma for_each_Nil: "for_each body [] = skip"
  by (rule ext) (simp add: skip_def)

lemma for_each_Cons: "for_each body (x # xs) = then_do (body x) (for_each body xs)"
  by (rule ext) simp

lemma for_each_cong:
  "(\<And>x. x \<in> set xs \<Longrightarrow> f x = g x) \<Longrightarrow> for_each f xs = for_each g xs"
  by (induction xs) (simp_all add: for_each_Nil for_each_Cons)

subsection \<open>Running a script\<close>

lemma exec_Nil: "exec client [] = skip"
  by (rule ext) (simp add: skip_def)

lemma exec_Print: "exec client (Print msg # es) = then_do (print_line msg) (exec client es)"
  by (rule ext) simp

lemma exec_Call: "exec client (Call c # es) = then_do (client_call client c) (exec client es)"
  by (rule ext) simp

lemma exec_append: "exec client (a @ b) = then_do (exec client a) (exec client b)"
proof (induction a)
  case Nil
  show ?case by (simp add: exec_Nil then_do_skip_left)
next
  case (Cons e a)
  then show ?case by (cases e) (simp_all add: exec_Print exec_Call then_do_assoc)
qed

lemma exec_if: "exec client (if b then x else y) = (if b then exec client x else exec client y)"
  by simp

lemma exec_case_option:
  "exec client (case x of None \<Rightarrow> a | Some y \<Rightarrow> b y) =
     (case x of None \<Rightarrow> exec client a | Some y \<Rightarrow> exec client (b y))"
  by (simp split: option.splits)

lemma exec_concat_map:
  "exec client (concat (map f xs)) = for_each (\<lambda>x. exec client (f x)) xs"
  by (induction xs) (simp_all add: exec_Nil for_each_Nil for_each_Cons exec_append)

lemmas exec_unfold = exec_if exec_Nil exec_Print exec_Call exec_append exec_concat_map
  then_do_skip_left then_do_skip_right then_do_assoc

lemma freeipa_user_add_exec:
  "freeipa_user_add client user dry_run = exec client (user_add_events user dry_run)"
  unfolding freeipa_user_add_def user_add_events_def
  by (simp only: exec_unfold list.simps append.simps)

lemma freeipa_user_mod_exec:
  "freeipa_user_mod client user dry_run = exec client (user_mod_events user dry_run)"
  unfolding freeipa_user_mod_def user_mod_events_def
  by (simp only: exec_unfold list.simps append.simps)

lemma freeipa_user_del_exec:
  "freeipa_user_del client user dry_run = exec client (user_del_events user dry_run)"
  unfolding freeipa_user_del_def user_del_events_def
  by (simp only: exec_unfold list.simps append.simps)

lemma freeipa_group_add_exec:
  "freeipa_group_add client grp dry_run = exec client (group_add_events grp dry_run)"
  unfolding freeipa_group_add_def group_add_events_def
  by (simp only: exec_unfold list.simps append.simps)

lemma freeipa_group_mod_exec:
  "freeipa_group_mod client idpgroup freeipagroup idp_users dry_run =
     exec client (group_mod_events idpgroup freeipagroup idp_users dry_run)"
  unfolding freeipa_group_mod_def group_mod_events_def
  by (simp only: exec_unfold list.simps append.simps)

lemma freeipa_group_del_exec:
  "freeipa_group_del client grp dry_run = exec client (group_del_events grp dry_run)"
  unfolding freeipa_group_del_def group_del_events_def
  by (simp only: exec_unfold list.simps append.simps)

lemma modified_groups_found:
  "grp \<in> set (modified_groups idp_groups freeipa_groups) \<Longrightarrow>
   \<exists>freeipagroup. dict_get freeipa_groups (Group.name grp) = Some freeipagroup"
  unfolding modified_groups_def modified_groups_loop_filter
  by (auto split: option.splits)

lemma group_mod_loop_exec:
  "for_each
     (\<lambda>grp. case dict_get freeipa_groups (Group.name grp) of
              None \<Rightarrow> raise KeyError
            | Some freeipagroup \<Rightarrow> freeipa_group_mod client grp freeipagroup idp_users dry_run)
     (modified_groups idp_groups freeipa_groups) =
   for_each
     (\<lambda>grp. exec client
              (case dict_get freeipa_groups (Group.name grp) of
                 None \<Rightarrow> []
               | Some freeipagroup \<Rightarrow> group_mod_events grp freeipagroup idp_users dry_run))
     (modified_groups idp_groups freeipa_groups)"
proof (rule for_each_cong)
  fix grp
  assume "grp \<in> set (modified_groups idp_groups freeipa_groups)"
  then obtain fg where "dict_get freeipa_groups (Group.name grp) = Some fg"
    using modified_groups_found by blast
  then show "(case dict_get freeipa_groups (Group.name grp) of
              None \<Rightarrow> raise KeyError
            | Some freeipagroup \<Rightarrow> freeipa_group_mod client grp freeipagroup idp_users dry_run) =
        exec client
              (case dict_get freeipa_groups (Group.name grp) of
                 None \<Rightarrow> []
               | Some freeipagroup \<Rightarrow> group_mod_events grp freeipagroup idp_users dry_run)"
    by (simp add: freeipa_group_mod_exec)
qed

lemma sync_exec:
  "sync client idp_users idp_groups freeipa_users freeipa_groups dry_run =
     exec client (sync_events idp_users idp_groups freeipa_users freeipa_groups dry_run)"
  unfolding sync_def sync_events_def Let_def group_mod_loop_exec
    freeipa_user_add_exec freeipa_user_mod_exec freeipa_user_del_exec
    freeipa_group_add_exec freeipa_group_del_exec
  by (simp only: exec_unfold list.simps append.simps)


subsection \<open>What a run of a script leaves in the trace\<close>

lemma exec_result:
  "exec client es s = (r, t) \<Longrightarrow>
     prefix t es \<and> (\<forall>s'. r = Ok s' \<longrightarrow> t = es) \<and> (\<forall>e. r = Raised e \<longrightarrow> e = BadRequest)"
proof (induction es arbitrary: s r t)
  case Nil
  then show ?case by auto
next
  case (Cons ev es)
  show ?case
  proof (cases ev)
    case (Print msg)
    obtain r' t' where rest: "exec client es s = (r', t')" by (cases "exec client es s")
    with Cons.prems Print have "r = r'" "t = Print msg # t'"
      by (simp_all add: then_do_def print_line_def)
    with Cons.IH[OF rest] Print show ?thesis by simp
  next
    case (Call c)
    show ?thesis
    proof (cases "client c s")
      case None
      with Cons.prems Call have "r = Raised BadRequest" "t = [Call c]"
        by (simp_all add: then_do_def client_call_def)
      with Call show ?thesis by simp
    next
      case (Some s1)
      obtain r' t' where rest: "exec client es s1 = (r', t')" by (cases "exec client es s1")
      with Cons.prems Call Some have "r = r'" "t = Call c # t'"
        by (simp_all add: then_do_def client_call_def)
      with Cons.IH[OF rest] Call show ?thesis by simp
    qed
  qed
qed

lemma exec_prefix: "exec client es s = (r, t) \<Longrightarrow> prefix t es"
  by (drule exec_result) simp

lemma exec_Ok: "exec client es s = (Ok s', t) \<Longrightarrow> t = es"
  by (drule exec_result) simp

lemma exec_no_calls: "calls_of es = [] \<Longrightarrow> exec client es s = (Ok s, es)"
proof (induction es)
  case Nil
  show ?case by simp
next
  case (Cons ev es)
  then show ?case by (cases ev) (simp_all add: then_do_def print_line_def)
qed

lemma exec_accept_all: "exec accept_all es s = (Ok s, es)"
proof (induction es)
  case Nil
  show ?case by simp
next
  case (Cons ev es)
  then show ?case
    by (cases ev) (simp_all add: then_do_def print_line_def client_call_def accept_all_def)
qed

text \<open>A script that starts with a line and a call: the call is reached.\<close>

lemma exec_Print_Call:
  assumes "exec client (Print msg # Call c # es) s = (r, t)"
  shows "\<exists>t'. t = Print msg # Call c # t'"
proof (cases "client c s")
  case None
  with assms show ?thesis by (auto simp: then_do_def print_line_def client_call_def)
next
  case (Some s1)
  obtain r' t' where rest: "exec client es s1 = (r', t')" by (cases "exec client es s1")
  with assms Some show ?thesis by (auto simp: then_do_def print_line_def client_call_def)
qed

lemma calls_of_append: "calls_of (a @ b) = calls_of a @ calls_of b"
  by (induction a rule: calls_of.induct) simp_all

lemma prints_of_append: "prints_of (a @ b) = prints_of a @ prints_of b"
  by (induction a rule: prints_of.induct) simp_all

lemma calls_of_concat_map:
  "calls_of (concat (map f xs)) = concat (map (\<lambda>x. calls_of (f x)) xs)"
  by (induction xs) (simp_all add: calls_of_append)

lemma prints_of_concat_map:
  "prints_of (concat (map f xs)) = concat (map (\<lambda>x. prints_of (f x)) xs)"
  by (induction xs) (simp_all add: prints_of_append)

lemma calls_of_if: "calls_of (if b then x else y) = (if b then calls_of x else calls_of y)"
  by simp

lemma prints_of_if: "prints_of (if b then x else y) = (if b then prints_of x else prints_of y)"
  by simp

lemma prefix_calls_of: "prefix t es \<Longrightarrow> prefix (calls_of t) (calls_of es)"
  by (auto simp: prefix_def calls_of_append)

lemma prefix_prints_of: "prefix t es \<Longrightarrow> prefix (prints_of t) (prints_of es)"
  by (auto simp: prefix_def prints_of_append)

lemma concat_map_if_filter:
  "concat (map (\<lambda>x. if P x then [f x] else []) xs) = map f (filter P xs)"
  by (induction xs) simp_all

lemma concat_map_Nil: "concat (map (\<lambda>x. []) xs) = []"
  by (induction xs) simp_all

lemma concat_map_single: "concat (map (\<lambda>x. [f x]) xs) = map f xs"
  by (induction xs) simp_all

lemma calls_of_map_Print: "calls_of (map (\<lambda>x. Print (f x)) xs) = []"
  by (induction xs) simp_all

lemma prints_of_map_Print: "prints_of (map (\<lambda>x. Print (f x)) xs) = map f xs"
  by (induction xs) simp_all

lemma calls_of_map_Call: "calls_of (map (\<lambda>x. Call (f x)) xs) = map f xs"
  by (induction xs) simp_all

lemma prints_of_map_Call: "prints_of (map (\<lambda>x. Call (f x)) xs) = []"
  by (induction xs) simp_all

lemmas trace_simps = calls_of_append prints_of_append calls_of_concat_map
  prints_of_concat_map calls_of_if prints_of_if calls_of_map_Print prints_of_map_Print
  calls_of_map_Call prints_of_map_Call

subsection \<open>Calls and lines of the scripts\<close>

lemma calls_of_dry:
  "calls_of (user_add_events user True) = []"
  "calls_of (user_mod_events user True) = []"
  "calls_of (user_del_events user True) = []"
  "calls_of (group_add_events grp True) = []"
  "calls_of (group_del_events grp True) = []"
  "calls_of (group_mod_events idpgroup freeipagroup idp_users True) = []"
  by (simp_all add: user_add_events_def user_mod_events_def user_del_events_def
        group_add_events_def group_del_events_def group_mod_events_def trace_simps
        concat_map_Nil cong: if_cong)

lemma prints_of_real:
  "prints_of (user_add_events user False) = prints_of (user_add_events user True)"
  "prints_of (user_mod_events user False) = prints_of (user_mod_events user True)"
  "prints_of (user_del_events user False) = prints_of (user_del_events user True)"
  "prints_of (group_add_events grp False) = prints_of (group_add_events grp True)"
  "prints_of (group_del_events grp False) = prints_of (group_del_events grp True)"
  "prints_of (group_mod_events idpgroup freeipagroup idp_users False) =
     prints_of (group_mod_events idpgroup freeipagroup idp_users True)"
  by (simp_all add: user_add_events_def user_mod_events_def user_del_events_def
        group_add_events_def group_del_events_def group_mod_events_def trace_simps
        cong: if_cong)

lemma calls_of_real:
  "calls_of (user_add_events user False) = [user_add user]"
  "calls_of (user_mod_events user False) = [user_mod user]"
  "calls_of (user_del_events user False) = [user_del (username user)]"
  "calls_of (group_add_events grp False) = group_add_calls grp"
  "calls_of (group_del_events grp False) = [group_del (Group.name grp)]"
  by (simp_all add: user_add_events_def user_mod_events_def user_del_events_def
        group_add_events_def group_del_events_def group_add_calls_def trace_simps
        concat_map_single cong: if_cong)

lemma concat_map_if_if_filter:
  "concat (map (\<lambda>x. if P x then (if Q x then [] else [f x]) else []) xs) =
     map f (filter (\<lambda>x. P x \<and> \<not> Q x) xs)"
  by (induction xs) simp_all

lemma calls_of_group_mod_events:
  "calls_of (group_mod_events idpgroup freeipagroup idp_users False) =
     group_mod_calls idpgroup freeipagroup idp_users"
  unfolding group_mod_events_def group_mod_calls_def members_to_add_def members_to_remove_def
  by (simp add: trace_simps concat_map_if_filter concat_map_if_if_filter cong: if_cong)

lemma members_same:
  "\<not> members_differ (members idpgroup) (members freeipagroup) \<Longrightarrow>
     members_to_add idpgroup freeipagroup = [] \<and>
     members_to_remove idpgroup freeipagroup idp_users = []"
  by (auto simp: members_differ_def members_to_add_def members_to_remove_def
        filter_empty_conv)

lemma prints_of_group_mod_events:
  "prints_of (group_mod_events idpgroup freeipagroup idp_users dry_run) =
     (''   * Updating Group '' @ Group.name idpgroup) #
     map (\<lambda>m. ''     * Adding member '' @ m) (members_to_add idpgroup freeipagroup) @
     map (\<lambda>m. ''     * Removing member '' @ m)
       (members_to_remove idpgroup freeipagroup idp_users)"
proof (cases "members_differ (members idpgroup) (members freeipagroup)")
  case True
  then show ?thesis
    unfolding group_mod_events_def members_to_add_def members_to_remove_def
    by (simp add: trace_simps concat_map_if_filter concat_map_if_if_filter cong: if_cong)
next
  case False
  with members_same[OF False] show ?thesis
    unfolding group_mod_events_def
    by (simp add: trace_simps)
qed


lemma calls_of_sync_events_dry:
  "calls_of (sync_events idp_users idp_groups freeipa_users freeipa_groups True) = []"
  unfolding sync_events_def Let_def
  by (simp add: trace_simps calls_of_dry concat_map_Nil option.case_distrib[of calls_of]
        split: option.split cong: if_cong)

lemma calls_of_sync_events:
  "calls_of (sync_events idp_users idp_groups freeipa_users freeipa_groups False) =
     sync_calls idp_users idp_groups freeipa_users freeipa_groups"
  unfolding sync_events_def Let_def sync_calls_def
  by (simp add: trace_simps calls_of_real calls_of_group_mod_events concat_map_single
        option.case_distrib[of calls_of] cong: if_cong option.case_cong)

lemma removed_members_append:
  "removed_members (a @ b) = removed_members a @ removed_members b"
  by (induction a rule: removed_members.induct) simp_all

lemma added_members_append:
  "added_members (a @ b) = added_members a @ added_members b"
  by (induction a rule: added_members.induct) simp_all

lemma removed_members_map:
  "removed_members (map (group_remove_member g) ms) = ms"
  "removed_members (map (group_add_member g) ms) = []"
  by (induction ms) simp_all

lemma added_members_map:
  "added_members (map (group_add_member g) ms) = ms"
  "added_members (map (group_remove_member g) ms) = []"
  by (induction ms) simp_all

lemma removed_members_group_mod_calls:
  "removed_members (group_mod_calls idpgroup freeipagroup idp_users) =
     members_to_remove idpgroup freeipagroup idp_users"
  using members_same[of idpgroup freeipagroup idp_users]
  by (simp add: group_mod_calls_def removed_members_append removed_members_map)

lemma added_members_group_mod_calls:
  "added_members (group_mod_calls idpgroup freeipagroup idp_users) =
     members_to_add idpgroup freeipagroup"
  using members_same[of idpgroup freeipagroup idp_users]
  by (simp add: group_mod_calls_def added_members_append added_members_map)

lemma dry_run_faithful_exec:
  assumes act: "\<And>dry_run. act dry_run = exec client (ev dry_run)"
    and nocalls: "calls_of (ev True) = []"
    and same: "prints_of (ev False) = prints_of (ev True)"
  shows "dry_run_faithful act s"
proof -
  have dry: "act True s = (Ok s, ev True)"
    by (simp add: act exec_no_calls[OF nocalls])
  obtain r t where real: "act False s = (r, t)" by (cases "act False s")
  then have ex: "exec client (ev False) s = (r, t)" by (simp add: act)
  show ?thesis
  proof (cases r)
    case (Ok s2)
    with ex have "t = ev False" by (simp add: exec_Ok)
    with dry real Ok nocalls same show ?thesis by (simp add: dry_run_faithful_def)
  next
    case (Raised e)
    from exec_prefix[OF ex] have "prefix (prints_of t) (prints_of (ev True))"
      using prefix_prints_of same by fastforce
    with dry real Raised nocalls show ?thesis by (simp add: dry_run_faithful_def)
  qed
qed

subsection \<open>Dry runs\<close>

text \<open>
  \<^bold>\<open>C9\<close>. In dry-run mode each of the six apply functions returns without having
  made any call on the client and leaves the session as it was, whatever the client;
  and the lines it prints are the lines the real run prints for the same action. The
  real run is one that returns: when the client rejects a call the exception ends the
  function, and what it printed until then is an initial part of the dry run's output.
\<close>

theorem C9_dry_run:
  "dry_run_faithful (freeipa_user_add client user) s \<and>
   dry_run_faithful (freeipa_user_del client user) s \<and>
   dry_run_faithful (freeipa_user_mod client user) s \<and>
   dry_run_faithful (freeipa_group_add client grp) s \<and>
   dry_run_faithful (freeipa_group_del client grp) s \<and>
   dry_run_faithful (freeipa_group_mod client idpgroup freeipagroup idp_users) s"
proof (intro conjI)
  show "dry_run_faithful (freeipa_user_add client user) s"
    by (rule dry_run_faithful_exec[where ev = "user_add_events user"])
       (simp_all add: freeipa_user_add_exec calls_of_dry prints_of_real)
  show "dry_run_faithful (freeipa_user_del client user) s"
    by (rule dry_run_faithful_exec[where ev = "user_del_events user"])
       (simp_all add: freeipa_user_del_exec calls_of_dry prints_of_real)
  show "dry_run_faithful (freeipa_user_mod client user) s"
    by (rule dry_run_faithful_exec[where ev = "user_mod_events user"])
       (simp_all add: freeipa_user_mod_exec calls_of_dry prints_of_real)
  show "dry_run_faithful (freeipa_group_add client grp) s"
    by (rule dry_run_faithful_exec[where ev = "group_add_events grp"])
       (simp_all add: freeipa_group_add_exec calls_of_dry prints_of_real)
  show "dry_run_faithful (freeipa_group_del client grp) s"
    by (rule dry_run_faithful_exec[where ev = "group_del_events grp"])
       (simp_all add: freeipa_group_del_exec calls_of_dry prints_of_real)
  show "dry_run_faithful (freeipa_group_mod client idpgroup freeipagroup idp_users) s"
    by (rule dry_run_faithful_exec[where ev = "group_mod_events idpgroup freeipagroup idp_users"])
       (simp_all add: freeipa_group_mod_exec calls_of_dry prints_of_real)
qed


lemma str_nat_1: "str_nat (Suc 0) = ''1''"
  by (simp add: str_nat.simps digit_char_def)

lemma ex_group_add_runs:
  "freeipa_group_add accept_all (example_group ''ops'' None [''alice'']) True () =
     (Ok (), [Print ''   * Adding Group ops'', Print ''     * Adding 1 members'',
              Print ''       * Adding member alice''])"
  "freeipa_group_add accept_all (example_group ''ops'' None [''alice'']) False () =
     (Ok (), [Print ''   * Adding Group ops'', Call (group_add ''ops'' None),
              Print ''     * Adding 1 members'', Print ''       * Adding member alice'',
              Call (group_add_member ''ops'' ''alice'')])"
  by (simp_all add: freeipa_group_add_exec exec_accept_all group_add_events_def
        example_group_def str_nat_1 del: exec.simps)

lemma ex_group_add_rejected:
  "freeipa_group_add reject_all (example_group ''ops'' None [''alice'']) False () =
     (Raised BadRequest, [Print ''   * Adding Group ops'', Call (group_add ''ops'' None)])"
  by (simp add: freeipa_group_add_exec group_add_events_def
        example_group_def str_nat_1 then_do_def print_line_def client_call_def
        reject_all_def)

text \<open>
  Adding the group \<open>ops\<close> with its member \<open>alice\<close>: the same three lines in both
  modes, two calls in the real run and none in the dry run.
\<close>

theorem C9_dry_run_witness:
  "dry_run_faithful (freeipa_group_add accept_all (example_group ''ops'' None [''alice''])) () \<and>
   dry_run_faithful (freeipa_group_add reject_all (example_group ''ops'' None [''alice''])) () \<and>
   prints_of (snd (freeipa_group_add accept_all (example_group ''ops'' None [''alice'']) True ())) =
     [''   * Adding Group ops'', ''     * Adding 1 members'', ''       * Adding member alice''] \<and>
   prints_of (snd (freeipa_group_add accept_all (example_group ''ops'' None [''alice'']) False ())) =
     [''   * Adding Group ops'', ''     * Adding 1 members'', ''       * Adding member alice''] \<and>
   calls_of (snd (freeipa_group_add accept_all (example_group ''ops'' None [''alice'']) True ())) = [] \<and>
   calls_of (snd (freeipa_group_add accept_all (example_group ''ops'' None [''alice'']) False ())) =
     [group_add ''ops'' None, group_add_member ''ops'' ''alice'']"
  using C9_dry_run [where client = accept_all and s = "()"
      and grp = "example_group ''ops'' None [''alice'']"]
    C9_dry_run [where client = reject_all and s = "()"
      and grp = "example_group ''ops'' None [''alice'']"]
  by (simp add: ex_group_add_runs)

subsection \<open>Membership delta\<close>

lemma group_remove_member_in_calls:
  "group_remove_member g m \<in> set (group_mod_calls idpgroup freeipagroup idp_users) \<Longrightarrow>
     g = Group.name idpgroup \<and> m \<in> set (members_to_remove idpgroup freeipagroup idp_users)"
  by (auto simp: group_mod_calls_def split: if_splits)

lemma set_prefix_subset: "prefix xs ys \<Longrightarrow> set xs \<subseteq> set ys"
  by (auto simp: prefix_def)

text \<open>
  \<^bold>\<open>C1\<close>. For a desired and a current group (in particular two with unequal member
  sets), in any run of the group modification: a membership removal call is only ever
  made in a real run, for this group, and for a member of the current group that is
  not a member of the desired one and whose username is a key of the desired users;
  so a member whose username is not such a key is never removed. When the run returns,
  the removals it reports are exactly those members, in the order of the current
  member list, and in a real run the removal calls made are exactly those too.
\<close>

theorem C1_membership_removals:
  assumes run: "freeipa_group_mod client idpgroup freeipagroup idp_users dry_run s = (r, t)"
  shows
    "(\<forall>g m. group_remove_member g m \<in> set (calls_of t) \<longrightarrow>
        \<not> dry_run \<and> g = Group.name idpgroup \<and> m \<in> set (members freeipagroup) \<and>
        m \<notin> set (members idpgroup) \<and> has_key m idp_users) \<and>
     (\<forall>s'. r = Ok s' \<longrightarrow>
        prints_of t =
          (''   * Updating Group '' @ Group.name idpgroup) #
          map (\<lambda>m. ''     * Adding member '' @ m) (members_to_add idpgroup freeipagroup) @
          map (\<lambda>m. ''     * Removing member '' @ m)
            (members_to_remove idpgroup freeipagroup idp_users) \<and>
        (\<not> dry_run \<longrightarrow>
           removed_members (calls_of t) =
             members_to_remove idpgroup freeipagroup idp_users)) \<and>
     set (members_to_remove idpgroup freeipagroup idp_users) =
       {m \<in> set (members freeipagroup). m \<notin> set (members idpgroup) \<and> has_key m idp_users}"
proof (intro conjI allI impI)
  from run have ex:
    "exec client (group_mod_events idpgroup freeipagroup idp_users dry_run) s = (r, t)"
    by (simp add: freeipa_group_mod_exec)
  have sub: "set (calls_of t) \<subseteq>
      set (calls_of (group_mod_events idpgroup freeipagroup idp_users dry_run))"
    by (rule set_prefix_subset, rule prefix_calls_of, rule exec_prefix[OF ex])
  {
    fix g m
    assume rm: "group_remove_member g m \<in> set (calls_of t)"
    show nd: "\<not> dry_run"
    proof
      assume dry_run
      with sub rm show False by (simp add: calls_of_dry)
    qed
    with sub rm have "group_remove_member g m \<in>
        set (group_mod_calls idpgroup freeipagroup idp_users)"
      by (auto simp: calls_of_group_mod_events)
    from group_remove_member_in_calls[OF this]
    show "g = Group.name idpgroup" "m \<in> set (members freeipagroup)"
      "m \<notin> set (members idpgroup)" "has_key m idp_users"
      by (simp_all add: members_to_remove_def)
  }
  {
    fix s'
    assume "r = Ok s'"
    with ex have t: "t = group_mod_events idpgroup freeipagroup idp_users dry_run"
      by (simp add: exec_Ok)
    show "prints_of t =
          (''   * Updating Group '' @ Group.name idpgroup) #
          map (\<lambda>m. ''     * Adding member '' @ m) (members_to_add idpgroup freeipagroup) @
          map (\<lambda>m. ''     * Removing member '' @ m)
            (members_to_remove idpgroup freeipagroup idp_users)"
      unfolding t by (rule prints_of_group_mod_events)
    assume "\<not> dry_run"
    with t show "removed_members (calls_of t) =
        members_to_remove idpgroup freeipagroup idp_users"
      by (simp add: calls_of_group_mod_events removed_members_group_mod_calls)
  }
  show "set (members_to_remove idpgroup freeipagroup idp_users) =
       {m \<in> set (members freeipagroup). m \<notin> set (members idpgroup) \<and> has_key m idp_users}"
    by (auto simp: members_to_remove_def)
qed


lemma set_neqI: "x \<in> B \<Longrightarrow> x \<notin> A \<Longrightarrow> A \<noteq> B"
  by blast

lemma members_differI: "x \<in> set b \<Longrightarrow> x \<notin> set a \<Longrightarrow> members_differ a b"
  by (auto simp: members_differ_def)

lemma ex_members_differ:
  "members_differ [''alice'', ''bob''] [''bob'', ''carol'', ''dave'']"
  "members_differ [''alice'', ''bob''] [''bob'', ''carol'']"
  by (rule members_differI[of "''carol''"]; simp)+

lemma ex_group_mod_run:
  "freeipa_group_mod accept_all
     (example_group ''eng'' (Some ''Engineering'') [''alice'', ''bob''])
     (example_group ''eng'' None [''bob'', ''carol'', ''dave'']) ex_idp_users False () =
   (Ok (),
    [Print ''   * Updating Group eng'', Call (group_mod ''eng'' (Some ''Engineering'')),
     Print ''     * Adding member alice'', Call (group_add_member ''eng'' ''alice''),
     Print ''     * Removing member dave'', Call (group_remove_member ''eng'' ''dave'')])"
  by (simp add: freeipa_group_mod_exec exec_accept_all group_mod_events_def
        example_group_def ex_members_differ has_key_def dict_keys_def ex_idp_users_def
        del: exec.simps)

text \<open>
  The group \<open>eng\<close> of the example: \<open>dave\<close> is removed, \<open>carol\<close>, who is not a
  desired user, is not.
\<close>

theorem C1_membership_removals_witness:
  "freeipa_group_mod accept_all
     (example_group ''eng'' (Some ''Engineering'') [''alice'', ''bob''])
     (example_group ''eng'' None [''bob'', ''carol'', ''dave'']) ex_idp_users False () =
   (Ok (),
    [Print ''   * Updating Group eng'', Call (group_mod ''eng'' (Some ''Engineering'')),
     Print ''     * Adding member alice'', Call (group_add_member ''eng'' ''alice''),
     Print ''     * Removing member dave'', Call (group_remove_member ''eng'' ''dave'')]) \<and>
   members_to_remove
     (example_group ''eng'' (Some ''Engineering'') [''alice'', ''bob''])
     (example_group ''eng'' None [''bob'', ''carol'', ''dave'']) ex_idp_users = [''dave''] \<and>
   \<not> has_key ''carol'' ex_idp_users"
proof -
  note run = ex_group_mod_run
  from C1_membership_removals [OF run]
  have "removed_members
          [group_mod ''eng'' (Some ''Engineering''), group_add_member ''eng'' ''alice'',
           group_remove_member ''eng'' ''dave''] =
        members_to_remove
          (example_group ''eng'' (Some ''Engineering'') [''alice'', ''bob''])
          (example_group ''eng'' None [''bob'', ''carol'', ''dave'']) ex_idp_users"
    by simp
  then have "members_to_remove
          (example_group ''eng'' (Some ''Engineering'') [''alice'', ''bob''])
          (example_group ''eng'' None [''bob'', ''carol'', ''dave'']) ex_idp_users = [''dave'']"
    by simp
  moreover have "\<not> has_key ''carol'' ex_idp_users"
    by (simp add: has_key_def dict_keys_def ex_idp_users_def)
  ultimately show ?thesis using run by simp
qed

text \<open>
  \<^bold>\<open>C2\<close>, as amended. After a real run of the group modification that returns, with
  \<open>toAdd\<close> and \<open>toRemove\<close> the members of its addition and removal calls: the
  current members minus \<open>toRemove\<close>, together with \<open>toAdd\<close>, are the desired
  members together with those current members that are neither desired members nor
  keys of the desired users (they are left in place). The result is the desired member
  set when every current member is a desired member or a key of the desired users.
\<close>

theorem C2_membership_delta:
  assumes run: "freeipa_group_mod client idpgroup freeipagroup idp_users False s = (Ok s', t)"
  shows
    "(set (members freeipagroup) - set (removed_members (calls_of t))) \<union>
       set (added_members (calls_of t)) =
     set (members idpgroup) \<union>
       {m \<in> set (members freeipagroup). m \<notin> set (members idpgroup) \<and> \<not> has_key m idp_users} \<and>
     ((\<forall>m \<in> set (members freeipagroup). m \<in> set (members idpgroup) \<or> has_key m idp_users) \<longrightarrow>
        (set (members freeipagroup) - set (removed_members (calls_of t))) \<union>
          set (added_members (calls_of t)) = set (members idpgroup))"
proof -
  from run have "exec client (group_mod_events idpgroup freeipagroup idp_users False) s = (Ok s', t)"
    by (simp add: freeipa_group_mod_exec)
  from exec_Ok[OF this]
  have t: "calls_of t = group_mod_calls idpgroup freeipagroup idp_users"
    by (simp add: calls_of_group_mod_events)
  have rm: "removed_members (calls_of t) = members_to_remove idpgroup freeipagroup idp_users"
    and ad: "added_members (calls_of t) = members_to_add idpgroup freeipagroup"
    by (simp_all add: t removed_members_group_mod_calls added_members_group_mod_calls)
  show ?thesis
    unfolding rm ad members_to_remove_def members_to_add_def by auto
qed

text \<open>In the example \<open>carol\<close> stays in \<open>eng\<close>.\<close>

theorem C2_membership_delta_witness:
  "freeipa_group_mod accept_all
     (example_group ''eng'' (Some ''Engineering'') [''alice'', ''bob''])
     (example_group ''eng'' None [''bob'', ''carol'', ''dave'']) ex_idp_users False () =
   (Ok (),
    [Print ''   * Updating Group eng'', Call (group_mod ''eng'' (Some ''Engineering'')),
     Print ''     * Adding member alice'', Call (group_add_member ''eng'' ''alice''),
     Print ''     * Removing member dave'', Call (group_remove_member ''eng'' ''dave'')]) \<and>
   ({''bob'', ''carol'', ''dave''} - {''dave''}) \<union> {''alice''} = {''alice'', ''bob''} \<union> {''carol''}"
proof -
  note run = ex_group_mod_run
  have carol: "{m \<in> {''bob'', ''carol'', ''dave''}. m \<notin> {''alice'', ''bob''} \<and>
      \<not> has_key m ex_idp_users} = {''carol''}"
    by (auto simp: has_key_def dict_keys_def ex_idp_users_def)
  from C2_membership_delta [OF run]
  have "({''bob'', ''carol'', ''dave''} - {''dave''}) \<union> {''alice''} =
      {''alice'', ''bob''} \<union> {m \<in> {''bob'', ''carol'', ''dave''}. m \<notin> {''alice'', ''bob''} \<and>
      \<not> has_key m ex_idp_users}"
    by (simp add: example_group_def)
  then have "({''bob'', ''carol'', ''dave''} - {''dave''}) \<union> {''alice''} =
      {''alice'', ''bob''} \<union> {''carol''}"
    unfolding carol .
  with run show ?thesis by simp
qed

text \<open>
  The claim as stated fails at the scenario of the specification: desired members
  \<open>alice, bob\<close>, current members \<open>bob, carol\<close>, desired users \<open>alice, bob\<close>. The
  run adds \<open>alice\<close> and removes nobody, so \<open>carol\<close> remains.
\<close>

theorem C2_counterexample:
  "fst (freeipa_group_mod accept_all
          (example_group ''eng'' None [''alice'', ''bob''])
          (example_group ''eng'' None [''bob'', ''carol''])
          [(''alice'', example_user ''alice'' None), (''bob'', example_user ''bob'' None)]
          False ()) = Ok () \<and>
   set (members (example_group ''eng'' None [''alice'', ''bob''])) \<noteq>
     (set (members (example_group ''eng'' None [''bob'', ''carol''])) -
      set (removed_members (calls_of (snd (freeipa_group_mod accept_all
          (example_group ''eng'' None [''alice'', ''bob''])
          (example_group ''eng'' None [''bob'', ''carol''])
          [(''alice'', example_user ''alice'' None), (''bob'', example_user ''bob'' None)]
          False ()))))) \<union>
     set (added_members (calls_of (snd (freeipa_group_mod accept_all
          (example_group ''eng'' None [''alice'', ''bob''])
          (example_group ''eng'' None [''bob'', ''carol''])
          [(''alice'', example_user ''alice'' None), (''bob'', example_user ''bob'' None)]
          False ()))))"
proof -
  have run: "freeipa_group_mod accept_all
          (example_group ''eng'' None [''alice'', ''bob''])
          (example_group ''eng'' None [''bob'', ''carol''])
          [(''alice'', example_user ''alice'' None), (''bob'', example_user ''bob'' None)]
          False () =
      (Ok (), [Print ''   * Updating Group eng'', Print ''     * Adding member alice'',
               Call (group_add_member ''eng'' ''alice'')])"
    by (simp add: freeipa_group_mod_exec exec_accept_all group_mod_events_def
          example_group_def ex_members_differ has_key_def dict_keys_def
          del: exec.simps)
  have "''carol'' \<in> (set [''bob'', ''carol''] - set []) \<union> set [''alice'']"
    and "''carol'' \<notin> set [''alice'', ''bob'']"
    by simp_all
  then have "set [''alice'', ''bob''] \<noteq> (set [''bob'', ''carol''] - set []) \<union> set [''alice'']"
    by (rule set_neqI)
  then show ?thesis
    unfolding run by (simp add: example_group_def)
qed

subsection \<open>The description call\<close>

lemma group_mod_in_calls:
  "group_mod n d \<in> set (group_mod_calls idpgroup freeipagroup idp_users) \<Longrightarrow>
     description idpgroup \<noteq> description freeipagroup \<and>
     n = Group.name idpgroup \<and> d = description idpgroup"
  by (auto simp: group_mod_calls_def split: if_splits)

lemma group_mod_events_differ:
  "description idpgroup \<noteq> description freeipagroup \<Longrightarrow>
   \<exists>es. group_mod_events idpgroup freeipagroup idp_users False =
     Print (''   * Updating Group '' @ Group.name idpgroup) #
     Call (group_mod (Group.name idpgroup) (description idpgroup)) # es"
  by (simp add: group_mod_events_def)

text \<open>
  When a \<open>group_mod\<close> call is among the calls of a run of the group modification, in
  either mode.
\<close>

lemma group_mod_call_iff:
  assumes run: "freeipa_group_mod client idpgroup freeipagroup idp_users dry_run s = (r, t)"
  shows "group_mod n d \<in> set (calls_of t) \<longleftrightarrow>
     \<not> dry_run \<and> description idpgroup \<noteq> description freeipagroup \<and>
     n = Group.name idpgroup \<and> d = description idpgroup"
proof
  from run have ex:
    "exec client (group_mod_events idpgroup freeipagroup idp_users dry_run) s = (r, t)"
    by (simp add: freeipa_group_mod_exec)
  have sub: "set (calls_of t) \<subseteq>
      set (calls_of (group_mod_events idpgroup freeipagroup idp_users dry_run))"
    by (rule set_prefix_subset, rule prefix_calls_of, rule exec_prefix[OF ex])
  assume gm: "group_mod n d \<in> set (calls_of t)"
  have nd: "\<not> dry_run"
  proof
    assume dry_run
    with sub gm show False by (simp add: calls_of_dry)
  qed
  with sub gm have "group_mod n d \<in> set (group_mod_calls idpgroup freeipagroup idp_users)"
    by (auto simp: calls_of_group_mod_events)
  from group_mod_in_calls[OF this] nd
  show "\<not> dry_run \<and> description idpgroup \<noteq> description freeipagroup \<and>
     n = Group.name idpgroup \<and> d = description idpgroup"
    by simp
next
  assume a: "\<not> dry_run \<and> description idpgroup \<noteq> description freeipagroup \<and>
     n = Group.name idpgroup \<and> d = description idpgroup"
  then obtain es where es: "group_mod_events idpgroup freeipagroup idp_users False =
     Print (''   * Updating Group '' @ Group.name idpgroup) #
     Call (group_mod (Group.name idpgroup) (description idpgroup)) # es"
    using group_mod_events_differ by blast
  from run a have "exec client (group_mod_events idpgroup freeipagroup idp_users False) s = (r, t)"
    by (simp add: freeipa_group_mod_exec)
  then have "exec client (Print (''   * Updating Group '' @ Group.name idpgroup) #
     Call (group_mod (Group.name idpgroup) (description idpgroup)) # es) s = (r, t)"
    by (simp only: es)
  from exec_Print_Call[OF this] a show "group_mod n d \<in> set (calls_of t)"
    by auto
qed

text \<open>
  \<^bold>\<open>C6\<close>. For a desired and a current group, a real run of the group modification
  makes a description call (\<open>group_mod\<close>) if and only if the desired description
  differs from the current one. In any run, a description call is the one for this
  group with the desired description, and when the descriptions are equal no
  description call is made, whatever the members.
\<close>

theorem C6_description_call:
  assumes run: "freeipa_group_mod client idpgroup freeipagroup idp_users dry_run s = (r, t)"
  shows
    "(\<not> dry_run \<longrightarrow>
        ((\<exists>n d. group_mod n d \<in> set (calls_of t)) \<longleftrightarrow>
         description idpgroup \<noteq> description freeipagroup)) \<and>
     (\<forall>n d. group_mod n d \<in> set (calls_of t) \<longrightarrow>
        n = Group.name idpgroup \<and> d = description idpgroup) \<and>
     (description idpgroup = description freeipagroup \<longrightarrow>
        (\<forall>n d. group_mod n d \<notin> set (calls_of t)))"
proof (intro conjI impI allI)
  assume "\<not> dry_run"
  then show "(\<exists>n d. group_mod n d \<in> set (calls_of t)) \<longleftrightarrow>
      description idpgroup \<noteq> description freeipagroup"
    by (simp add: group_mod_call_iff[OF run])
next
  fix n d
  assume "group_mod n d \<in> set (calls_of t)"
  then show "n = Group.name idpgroup" "d = description idpgroup"
    by (simp_all add: group_mod_call_iff[OF run])
next
  fix n d
  assume "description idpgroup = description freeipagroup"
  then show "group_mod n d \<notin> set (calls_of t)"
    by (simp add: group_mod_call_iff[OF run])
qed

text \<open>The real run on the group \<open>eng\<close> of the example, whose description changes.\<close>

theorem C6_description_call_witness:
  "freeipa_group_mod accept_all
     (example_group ''eng'' (Some ''Engineering'') [''alice'', ''bob''])
     (example_group ''eng'' None [''bob'', ''carol'', ''dave'']) ex_idp_users False () =
   (Ok (),
    [Print ''   * Updating Group eng'', Call (group_mod ''eng'' (Some ''Engineering'')),
     Print ''     * Adding member alice'', Call (group_add_member ''eng'' ''alice''),
     Print ''     * Removing member dave'', Call (group_remove_member ''eng'' ''dave'')]) \<and>
   description (example_group ''eng'' (Some ''Engineering'') [''alice'', ''bob'']) \<noteq>
     description (example_group ''eng'' None [''bob'', ''carol'', ''dave'']) \<and>
   (\<exists>n d. group_mod n d \<in> set (calls_of
     [Print ''   * Updating Group eng'', Call (group_mod ''eng'' (Some ''Engineering'')),
      Print ''     * Adding member alice'', Call (group_add_member ''eng'' ''alice''),
      Print ''     * Removing member dave'', Call (group_remove_member ''eng'' ''dave'')]))"
proof -
  have differ: "description (example_group ''eng'' (Some ''Engineering'') [''alice'', ''bob'']) \<noteq>
     description (example_group ''eng'' None [''bob'', ''carol'', ''dave''])"
    by (simp add: example_group_def)
  have real: "\<not> False" by simp
  from C6_description_call [OF ex_group_mod_run, THEN conjunct1, THEN mp, OF real] differ
  have "\<exists>n d. group_mod n d \<in> set (calls_of
     [Print ''   * Updating Group eng'', Call (group_mod ''eng'' (Some ''Engineering'')),
      Print ''     * Adding member alice'', Call (group_add_member ''eng'' ''alice''),
      Print ''     * Removing member dave'', Call (group_remove_member ''eng'' ''dave'')])"
    by (rule iffD2)
  with ex_group_mod_run differ show ?thesis by (intro conjI)
qed

text \<open>A dry run of the same modification prints the same lines and makes no call.\<close>

lemma ex_group_mod_dry_run:
  "freeipa_group_mod accept_all
     (example_group ''eng'' (Some ''Engineering'') [''alice'', ''bob''])
     (example_group ''eng'' None [''bob'', ''carol'', ''dave'']) ex_idp_users True () =
   (Ok (),
    [Print ''   * Updating Group eng'', Print ''     * Adding member alice'',
     Print ''     * Removing member dave''])"
  by (simp add: freeipa_group_mod_exec exec_accept_all group_mod_events_def
        example_group_def ex_members_differ has_key_def dict_keys_def ex_idp_users_def
        del: exec.simps)

subsection \<open>Order of the categories\<close>

text \<open>
  \<^bold>\<open>C8\<close>, as amended. The calls of a pass that is not a dry run are, in this
  order: the additions of all new users, the deletions of all deleted users, for
  each new group its addition followed by the additions of its members, the deletions
  of all deleted groups, the modifications of all modified users, and for each
  modified group its description call (if any), its member additions and its member
  removals. A pass that returns has made exactly these calls; a pass that a rejected
  call cuts short has made an initial part of them, and no other exception occurs.
\<close>

theorem C8_apply_order:
  assumes run: "sync client idp_users idp_groups freeipa_users freeipa_groups False s = (r, t)"
  shows
    "prefix (calls_of t) (sync_calls idp_users idp_groups freeipa_users freeipa_groups) \<and>
     (\<forall>s'. r = Ok s' \<longrightarrow>
        calls_of t = sync_calls idp_users idp_groups freeipa_users freeipa_groups) \<and>
     (\<forall>e. r = Raised e \<longrightarrow> e = BadRequest)"
proof -
  from run have ex:
    "exec client (sync_events idp_users idp_groups freeipa_users freeipa_groups False) s = (r, t)"
    by (simp add: sync_exec)
  from exec_result[OF ex] prefix_calls_of show ?thesis
    by (auto simp: calls_of_sync_events[symmetric])
qed

lemma ex_lists:
  "users_not_in ex_idp_users ex_freeipa_users = [example_user ''alice'' None]"
  "users_not_in ex_freeipa_users ex_idp_users = [example_user ''carol'' None]"
  "groups_not_in ex_idp_groups ex_freeipa_groups = [example_group ''ops'' None [''alice'']]"
  "groups_not_in ex_freeipa_groups ex_idp_groups = [example_group ''old'' None [''carol'']]"
  by (simp_all add: users_not_in_def groups_not_in_def has_key_def dict_keys_def
        dict_values_def ex_idp_users_def ex_freeipa_users_def ex_idp_groups_def
        ex_freeipa_groups_def example_user_def example_group_def)

lemma ex_modified_users:
  "modified_users ex_idp_users ex_freeipa_users = [example_user ''bob'' (Some ''/bin/zsh'')]"
  by (simp add: modified_users_def dict_values_def dict_get_def ex_idp_users_def
        ex_freeipa_users_def example_user_def user_match_def)

lemma ex_modified_groups:
  "modified_groups ex_idp_groups ex_freeipa_groups =
     [example_group ''eng'' (Some ''Engineering'') [''alice'', ''bob'']]"
  by (simp add: modified_groups_def dict_values_def dict_get_def ex_idp_groups_def
        ex_freeipa_groups_def example_group_def group_match_def)

lemma ex_sync_calls:
  "sync_calls ex_idp_users ex_idp_groups ex_freeipa_users ex_freeipa_groups =
     [user_add (example_user ''alice'' None),
      user_del ''carol'',
      group_add ''ops'' None, group_add_member ''ops'' ''alice'',
      group_del ''old'',
      user_mod (example_user ''bob'' (Some ''/bin/zsh'')),
      group_mod ''eng'' (Some ''Engineering''), group_add_member ''eng'' ''alice'',
      group_remove_member ''eng'' ''dave'']"
  unfolding sync_calls_def ex_lists ex_modified_users ex_modified_groups
  by (simp add: group_add_calls_def group_mod_calls_def members_to_add_def
        members_to_remove_def dict_get_def ex_freeipa_groups_def example_group_def
        example_user_def ex_members_differ has_key_def dict_keys_def ex_idp_users_def)


text \<open>The pass over the example snapshots, with a client that accepts every call.\<close>

theorem C8_apply_order_witness:
  "fst (sync accept_all ex_idp_users ex_idp_groups ex_freeipa_users ex_freeipa_groups False ()) =
     Ok () \<and>
   calls_of (snd (sync accept_all ex_idp_users ex_idp_groups ex_freeipa_users ex_freeipa_groups
     False ())) =
     [user_add (example_user ''alice'' None),
      user_del ''carol'',
      group_add ''ops'' None, group_add_member ''ops'' ''alice'',
      group_del ''old'',
      user_mod (example_user ''bob'' (Some ''/bin/zsh'')),
      group_mod ''eng'' (Some ''Engineering''), group_add_member ''eng'' ''alice'',
      group_remove_member ''eng'' ''dave'']"
proof -
  have run: "sync accept_all ex_idp_users ex_idp_groups ex_freeipa_users ex_freeipa_groups
      False () =
    (Ok (), sync_events ex_idp_users ex_idp_groups ex_freeipa_users ex_freeipa_groups False)"
    by (simp add: sync_exec exec_accept_all)
  from C8_apply_order [OF run]
  have "calls_of (sync_events ex_idp_users ex_idp_groups ex_freeipa_users ex_freeipa_groups
      False) = sync_calls ex_idp_users ex_idp_groups ex_freeipa_users ex_freeipa_groups"
    by simp
  then show ?thesis
    unfolding run by (simp add: ex_sync_calls)
qed

text \<open>
  The claim as stated fails where a user is to be deleted and a group to be added: the
  deletion is made first.
\<close>

theorem C8_counterexample:
  "calls_of (snd (sync accept_all
      [] [(''ops'', example_group ''ops'' None [])]
      [(''carol'', example_user ''carol'' None)] []
      False ())) =
   [user_del ''carol'', group_add ''ops'' None]"
  by (simp add: sync_exec exec_accept_all calls_of_sync_events sync_calls_def
        users_not_in_def groups_not_in_def modified_users_def modified_groups_def
        has_key_def dict_keys_def dict_values_def dict_get_def group_add_calls_def
        example_user_def example_group_def)

subsection \<open>Idempotence\<close>

lemma sync_dry_run:
  "sync client idp_users idp_groups freeipa_users freeipa_groups True s =
     (Ok s, sync_events idp_users idp_groups freeipa_users freeipa_groups True)"
  by (simp add: sync_exec exec_no_calls calls_of_sync_events_dry)

lemma sync_events_self:
  "users_ok us \<Longrightarrow> groups_ok gs \<Longrightarrow>
   sync_events us gs us gs dry_run =
     (if dry_run then [Print ''== DRY RUN ==''] else []) @ [Print ''Sync Complete'']"
  by (simp add: sync_events_def users_not_in_self groups_not_in_self modified_users_self
        modified_groups_self)

text \<open>
  \<^bold>\<open>C5\<close>. The action lists are a function of the two snapshots alone: the report
  of a dry run, which enumerates them, is the same for every client and every state
  of the session. On a snapshot compared with itself all six lists are empty, and the
  pass makes no call and prints only its last line.
\<close>

theorem C5_idempotent:
  "snd (sync client1 idp_users idp_groups freeipa_users freeipa_groups True s1) =
     snd (sync client2 idp_users idp_groups freeipa_users freeipa_groups True s2) \<and>
   (users_ok idp_users \<and> groups_ok idp_groups \<longrightarrow>
      action_lists idp_users idp_groups idp_users idp_groups = ([], [], [], [], [], []) \<and>
      sync client1 idp_users idp_groups idp_users idp_groups False s1 =
        (Ok s1, [Print ''Sync Complete'']))"
proof (intro conjI impI)
  show "snd (sync client1 idp_users idp_groups freeipa_users freeipa_groups True s1) =
     snd (sync client2 idp_users idp_groups freeipa_users freeipa_groups True s2)"
    by (simp add: sync_dry_run)
next
  assume ok: "users_ok idp_users \<and> groups_ok idp_groups"
  then show "action_lists idp_users idp_groups idp_users idp_groups =
      ([], [], [], [], [], [])"
    by (simp add: action_lists_def users_not_in_self groups_not_in_self
          modified_users_self modified_groups_self)
  from ok have "sync_events idp_users idp_groups idp_users idp_groups False =
      [Print ''Sync Complete'']"
    by (simp add: sync_events_self)
  then show "sync client1 idp_users idp_groups idp_users idp_groups False s1 =
        (Ok s1, [Print ''Sync Complete''])"
    by (simp add: sync_exec then_do_def print_line_def)
qed

text \<open>The desired example snapshot against itself, and two dry runs of the example.\<close>

theorem C5_idempotent_witness:
  "users_ok ex_idp_users \<and> groups_ok ex_idp_groups \<and>
   action_lists ex_idp_users ex_idp_groups ex_idp_users ex_idp_groups =
     ([], [], [], [], [], []) \<and>
   sync reject_all ex_idp_users ex_idp_groups ex_idp_users ex_idp_groups False () =
     (Ok (), [Print ''Sync Complete'']) \<and>
   snd (sync accept_all ex_idp_users ex_idp_groups ex_freeipa_users ex_freeipa_groups True ()) =
     snd (sync reject_all ex_idp_users ex_idp_groups ex_freeipa_users ex_freeipa_groups True ())"
  using C5_idempotent [of reject_all ex_idp_users ex_idp_groups ex_freeipa_users
      ex_freeipa_groups "()" accept_all "()"]
    C5_idempotent [of accept_all ex_idp_users ex_idp_groups ex_freeipa_users
      ex_freeipa_groups "()" reject_all "()"]
    ex_users_ok ex_groups_ok
  by simp

section \<open>The LDAP loader\<close>

subsection \<open>Dictionaries and the error monad\<close>

lemma and_then_Inr:
  "and_then m f = Inr y \<longleftrightarrow> (\<exists>x. m = Inr x \<and> f x = Inr y)"
  by (cases m) (simp_all add: and_then_def)

lemma isl_and_then:
  "isl (and_then m f) \<longleftrightarrow> isl m \<or> (\<exists>x. m = Inr x \<and> isl (f x))"
  by (cases m) (simp_all add: and_then_def)

lemma dict_keys_dict_set: "set (dict_keys (dict_set d k v)) = insert k (set (dict_keys d))"
  by (induction d k v rule: dict_set.induct) (auto simp: dict_keys_def)

lemma has_key_dict_set: "has_key k' (dict_set d k v) \<longleftrightarrow> k' = k \<or> has_key k' d"
  by (simp add: has_key_def dict_keys_dict_set)

lemma distinct_dict_set:
  "distinct (dict_keys d) \<Longrightarrow> distinct (dict_keys (dict_set d k v))"
proof (induction d k v rule: dict_set.induct)
  case (1 k v)
  show ?case by (simp add: dict_keys_def)
next
  case (2 k' v' d k v)
  then show ?case
    using dict_keys_dict_set[of d k v] by (auto simp: dict_keys_def)
qed

lemma set_dict_set: "set (dict_set d k v) \<subseteq> insert (k, v) (set d)"
  by (induction d k v rule: dict_set.induct) auto

lemma dict_get_dict_set: "dict_get (dict_set d k v) k = Some v"
  by (induction d k v rule: dict_set.induct) (simp_all add: dict_get_def)

subsection \<open>Members of loaded groups\<close>


















subsection \<open>Duplicate keys\<close>

lemma fetch_ldap_user_row_cases:
  assumes "fetch_ldap_user_row utf8 config ignore_users active_values attr users = Inr users'"
  shows "case row_username utf8 config ignore_users attr of
           None \<Rightarrow> users' = users
         | Some k \<Rightarrow> \<not> has_key k users \<and> (\<exists>u. users' = dict_set users k u \<and> username u = k)"
proof -
  from assms obtain idp_username_opt where
    fs: "fetch_string utf8 attr (Some (cfg_attr_username config)) = Inr idp_username_opt"
    by (auto simp: fetch_ldap_user_row_def and_then_Inr)
  show ?thesis
  proof (cases idp_username_opt)
    case None
    with assms fs show ?thesis
      by (simp add: fetch_ldap_user_row_def row_username_def and_then_def)
  next
    case (Some nm)
    show ?thesis
    proof (cases "nm \<in> set ignore_users")
      case True
      with assms fs Some show ?thesis
        by (simp add: fetch_ldap_user_row_def row_username_def and_then_def)
    next
      case False
      with assms fs Some obtain k where
        k: "index (str_split CHR ''@'' nm) 0 = Inr k"
        by (auto simp: fetch_ldap_user_row_def and_then_Inr)
      with fs Some False have ru: "row_username utf8 config ignore_users attr = Some k"
        by (simp add: row_username_def)
      from assms fs Some False k
      have "\<not> has_key k users \<and> (\<exists>u. users' = dict_set users k u \<and> username u = k)"
        by (auto simp: fetch_ldap_user_row_def and_then_Inr Let_def split: if_splits)
      with ru show ?thesis by simp
    qed
  qed
qed

lemma fetch_ldap_users_loop_keys:
  "fetch_ldap_users_loop utf8 config ignore_users active_values rows users = Inr users' \<Longrightarrow>
   distinct (List.map_filter (row_username utf8 config ignore_users) rows) \<and>
   set (List.map_filter (row_username utf8 config ignore_users) rows) \<inter> set (dict_keys users) = {} \<and>
   set (dict_keys users') =
     set (dict_keys users) \<union> set (List.map_filter (row_username utf8 config ignore_users) rows)"
proof (induction rows arbitrary: users)
  case Nil
  then show ?case by (simp add: List.map_filter_simps)
next
  case (Cons attr rows)
  from Cons.prems obtain u1 where
    step: "fetch_ldap_user_row utf8 config ignore_users active_values attr users = Inr u1"
    and rest: "fetch_ldap_users_loop utf8 config ignore_users active_values rows u1 = Inr users'"
    by (auto simp: and_then_Inr)
  note IH = Cons.IH[OF rest]
  show ?case
  proof (cases "row_username utf8 config ignore_users attr")
    case None
    with fetch_ldap_user_row_cases[OF step] have "u1 = users" by simp
    with IH None show ?thesis by (simp add: List.map_filter_simps)
  next
    case (Some k)
    with fetch_ldap_user_row_cases[OF step] obtain u where
      nk: "\<not> has_key k users" and u1: "u1 = dict_set users k u"
      by auto
    have keys: "set (dict_keys u1) = insert k (set (dict_keys users))"
      by (simp add: u1 dict_keys_dict_set)
    from IH keys nk Some show ?thesis
      by (auto simp: List.map_filter_simps has_key_def)
  qed
qed

lemma fetch_ldap_group_row_isl:
  "isl (fetch_ldap_group_row utf8 config ignore_users ignore_groups users attr groups) =
   isl (fetch_ldap_group_row utf8 config ignore_users ignore_groups users attr groups2)"
  by (simp add: fetch_ldap_group_row_def isl_and_then Let_def)

lemma fetch_ldap_groups_loop_isl:
  "isl (fetch_ldap_groups_loop utf8 config ignore_users ignore_groups users rows groups) =
   isl (fetch_ldap_groups_loop utf8 config ignore_users ignore_groups users rows groups2)"
proof (induction rows arbitrary: groups groups2)
  case Nil
  show ?case by simp
next
  case (Cons attr rows)
  show ?case
  proof (cases "fetch_ldap_group_row utf8 config ignore_users ignore_groups users attr groups")
    case (Inl e)
    with fetch_ldap_group_row_isl[of utf8 config ignore_users ignore_groups users attr groups groups2]
    have "isl (fetch_ldap_group_row utf8 config ignore_users ignore_groups users attr groups2)"
      by simp
    with Inl show ?thesis by (simp add: isl_and_then)
  next
    case (Inr g1)
    with fetch_ldap_group_row_isl[of utf8 config ignore_users ignore_groups users attr groups groups2]
    obtain g2 where g2:
      "fetch_ldap_group_row utf8 config ignore_users ignore_groups users attr groups2 = Inr g2"
      by (cases "fetch_ldap_group_row utf8 config ignore_users ignore_groups users attr groups2")
         simp_all
    from Inr g2 Cons.IH[of g1 g2] show ?thesis by (simp add: and_then_def)
  qed
qed

text \<open>
  Two rows of the user search that are both kept and stand for the same username make
  \<open>fetch_ldap\<close> raise instead of returning a snapshot (lines 435-436).
\<close>

lemma fetch_ldap_duplicate_user:
  assumes dup: "\<not> distinct (List.map_filter
        (row_username utf8 config (str_split CHR '','' (cfg_ignore_users config))) user_rows)"
  shows "isl (fetch_ldap utf8 config (Some user_rows) group_response)"
proof (cases "fetch_ldap_users_loop utf8 config (str_split CHR '','' (cfg_ignore_users config))
    (str_split CHR '','' (cfg_attr_active_values config)) user_rows []")
  case (Inl e)
  then show ?thesis by (simp add: fetch_ldap_def Let_def and_then_def)
next
  case (Inr users')
  from fetch_ldap_users_loop_keys[OF this] dup show ?thesis by simp
qed

text \<open>
  The group loop has no such check (line 483): a row that yields the group \<open>grp\<close>
  under the name \<open>k\<close> is stored over whatever the mapping holds under \<open>k\<close>.
\<close>

lemma fetch_ldap_group_row_replaces:
  assumes "fetch_ldap_group_row utf8 config ignore_users ignore_groups users attr [] =
      Inr [(k, grp)]"
  shows "fetch_ldap_group_row utf8 config ignore_users ignore_groups users attr groups =
      Inr (dict_set groups k grp) \<and>
    dict_get (dict_set groups k grp) k = Some grp"
  using assms
  by (auto simp: fetch_ldap_group_row_def and_then_Inr Let_def dict_get_dict_set
        split: if_splits)

text \<open>A third user row whose login normalises to \<open>alice\<close> again.\<close>

lemma ex_row_usernames:
  "List.map_filter (row_username (\<lambda>b. True) ex_config (str_split CHR '','' (cfg_ignore_users ex_config)))
     (ex_user_rows @ [ex_user_row ''alice@other.org'']) = [''alice'', ''bob'', ''alice'']"
  by code_simp

text \<open>
  \<^bold>\<open>C7\<close>. The claim asks for an error whenever two entities of one snapshot share a
  key. The code at two rows of the group search with the same name \<open>eng\<close>:
  \<open>fetch_ldap\<close> returns a snapshot, in which the second group has replaced the first.
  At two user rows with the same username the same function raises.
\<close>

theorem C7_duplicate_group_names:
  "fetch_ldap (\<lambda>b. True) ex_config (Some [])
     (Some [ex_group_row ''eng'' ''first'' [], ex_group_row ''eng'' ''second'' []]) =
     Inr ([], [(''eng'', example_group ''eng'' (Some ''second'') [])]) \<and>
   fetch_ldap (\<lambda>b. True) ex_config (Some (ex_user_rows @ [ex_user_row ''alice@other.org'']))
     (Some ex_group_rows) = Inl (Exception ''Duplicate user alice'')"
  by code_simp

subsection \<open>Shape of the loaded snapshot\<close>

text \<open>
  The mappings that \<open>fetch_ldap\<close> returns have the shape the theorems on the diff
  engine assume: distinct keys, and every user and group stored under its own name.
\<close>

lemma users_ok_dict_set:
  "users_ok users \<Longrightarrow> username u = k \<Longrightarrow> users_ok (dict_set users k u)"
  using set_dict_set[of users k u]
  by (auto simp: users_ok_def distinct_dict_set list_all_iff)

lemma groups_ok_dict_set:
  "groups_ok groups \<Longrightarrow> Group.name g = k \<Longrightarrow> groups_ok (dict_set groups k g)"
  using set_dict_set[of groups k g]
  by (auto simp: groups_ok_def distinct_dict_set list_all_iff)

lemma fetch_ldap_users_loop_ok:
  "fetch_ldap_users_loop utf8 config ignore_users active_values rows users = Inr users' \<Longrightarrow>
   users_ok users \<Longrightarrow> users_ok users'"
proof (induction rows arbitrary: users)
  case Nil
  then show ?case by simp
next
  case (Cons attr rows)
  from Cons.prems(1) obtain u1 where
    step: "fetch_ldap_user_row utf8 config ignore_users active_values attr users = Inr u1"
    and rest: "fetch_ldap_users_loop utf8 config ignore_users active_values rows u1 = Inr users'"
    by (auto simp: and_then_Inr)
  from fetch_ldap_user_row_cases[OF step] Cons.prems(2) have "users_ok u1"
    by (auto simp: users_ok_dict_set split: option.splits)
  from Cons.IH[OF rest this] show ?case .
qed

lemma fetch_ldap_group_row_ok:
  assumes "fetch_ldap_group_row utf8 config ignore_users ignore_groups users attr groups =
      Inr groups'"
    and "groups_ok groups"
  shows "groups_ok groups'"
  using assms
  by (auto simp: fetch_ldap_group_row_def and_then_Inr Let_def groups_ok_dict_set
        split: if_splits)

lemma fetch_ldap_groups_loop_ok:
  "fetch_ldap_groups_loop utf8 config ignore_users ignore_groups users rows groups = Inr groups' \<Longrightarrow>
   groups_ok groups \<Longrightarrow> groups_ok groups'"
proof (induction rows arbitrary: groups)
  case Nil
  then show ?case by simp
next
  case (Cons attr rows)
  from Cons.prems(1) obtain g1 where
    step: "fetch_ldap_group_row utf8 config ignore_users ignore_groups users attr groups = Inr g1"
    and rest: "fetch_ldap_groups_loop utf8 config ignore_users ignore_groups users rows g1 =
      Inr groups'"
    by (auto simp: and_then_Inr)
  from Cons.IH[OF rest fetch_ldap_group_row_ok[OF step Cons.prems(2)]] show ?case .
qed

lemma fetch_ldap_snapshot_ok:
  assumes "fetch_ldap utf8 config user_response group_response = Inr (users, groups)"
  shows "users_ok users \<and> groups_ok groups"
proof -
  from assms obtain user_rows group_rows where
    u: "fetch_ldap_users_loop utf8 config (str_split CHR '','' (cfg_ignore_users config))
       (str_split CHR '','' (cfg_attr_active_values config)) user_rows [] = Inr users"
    and g: "fetch_ldap_groups_loop utf8 config (str_split CHR '','' (cfg_ignore_users config))
       (str_split CHR '','' (cfg_ignore_groups config)) users group_rows [] = Inr groups"
    by (auto simp: fetch_ldap_def Let_def and_then_Inr split: option.splits)
  have "users_ok []" "groups_ok []"
    by (simp_all add: users_ok_def groups_ok_def dict_keys_def)
  with fetch_ldap_users_loop_ok[OF u] fetch_ldap_groups_loop_ok[OF g] show ?thesis by simp
qed

end
